theory Spec2Isabelle
  imports
    Main
    "HOL-Library.Word"
    "HOL-Library.List_Lexorder"
    "HOL-Library.Product_Lexorder"
    "HOL-Library.AList"
    "HOL-Library.Multiset"
begin

section \<open>JavaScript values used by the scripts\<close>

text \<open>
  A JavaScript string is a sequence of UTF-16 code units: \<open>length\<close>, \<open>slice\<close> and the
  default \<open>Array.prototype.sort\<close> all work on code units. String literals of the scripts
  are ASCII and written \<open>lit ''...''\<close>.
\<close>

type_synonym jsstring = "16 word list"

definition lit :: "string \<Rightarrow> jsstring" where
  "lit s = map (\<lambda>c. of_nat (of_char c)) s"

text \<open>\<open>!v\<close> on a string-or-undefined value: undefined, null and the empty string are falsy.\<close>

definition truthy :: "jsstring option \<Rightarrow> bool" where
  "truthy v = (case v of None \<Rightarrow> False | Some s \<Rightarrow> s \<noteq> [])"

text \<open>\<open>v || ''\<close>.\<close>

definition orEmpty :: "jsstring option \<Rightarrow> jsstring" where
  "orEmpty v = (case v of None \<Rightarrow> [] | Some s \<Rightarrow> s)"

text \<open>\<open>v || null\<close>.\<close>

definition orNull :: "jsstring option \<Rightarrow> jsstring option" where
  "orNull v = (if truthy v then v else None)"

text \<open>\<open>v || d\<close> for a string default \<open>d\<close>.\<close>

definition orDefault :: "jsstring option \<Rightarrow> jsstring \<Rightarrow> jsstring" where
  "orDefault v d = (case v of None \<Rightarrow> d | Some s \<Rightarrow> if s = [] then d else s)"

text \<open>\<open>res.data.field || []\<close>.\<close>

definition orEmptyList :: "'a list option \<Rightarrow> 'a list" where
  "orEmptyList v = (case v of None \<Rightarrow> [] | Some xs \<Rightarrow> xs)"

text \<open>
  The code units matched by the regular expression class \<open>\s\<close> and stripped by
  \<open>String.prototype.trim\<close>: the ECMAScript WhiteSpace and LineTerminator code points.
\<close>

definition isWhiteSpace :: "16 word \<Rightarrow> bool" where
  "isWhiteSpace c =
     (c = 0x9 \<or> c = 0xA \<or> c = 0xB \<or> c = 0xC \<or> c = 0xD \<or> c = 0x20 \<or> c = 0xA0 \<or>
      c = 0x1680 \<or> (0x2000 \<le> c \<and> c \<le> 0x200A) \<or> c = 0x2028 \<or> c = 0x2029 \<or>
      c = 0x202F \<or> c = 0x205F \<or> c = 0x3000 \<or> c = 0xFEFF)"

text \<open>\<open>s.replace(/\s+/g, ' ')\<close>: every maximal run of white space becomes one space.\<close>

function collapseWhiteSpace :: "jsstring \<Rightarrow> jsstring" where
  "collapseWhiteSpace [] = []"
| "collapseWhiteSpace (c # cs) =
     (if isWhiteSpace c then 0x20 # collapseWhiteSpace (dropWhile isWhiteSpace cs)
      else c # collapseWhiteSpace cs)"
  by pat_completeness auto
termination
  by (relation "measure length") (auto simp: length_dropWhile_le less_Suc_eq_le)

text \<open>\<open>s.trim()\<close>.\<close>

definition trim :: "jsstring \<Rightarrow> jsstring" where
  "trim s = rev (dropWhile isWhiteSpace (rev (dropWhile isWhiteSpace s)))"

text \<open>\<open>(text || '').replace(/\s+/g, ' ').trim()\<close>, as both build scripts normalise an announcement.\<close>

definition normalizeText :: "jsstring option \<Rightarrow> jsstring" where
  "normalizeText text = trim (collapseWhiteSpace (orEmpty text))"

text \<open>\<open>txt.length > 120 ? txt.slice(0, 117) + '\<dots>' : txt\<close>; the marker is the single code unit U+2026.\<close>

definition ellipsis :: "16 word" where
  "ellipsis = 0x2026"

definition truncateTitle :: "jsstring \<Rightarrow> jsstring" where
  "truncateTitle txt = (if length txt > 120 then take 117 txt @ [ellipsis] else txt)"

text \<open>\<open>hay.includes(needle)\<close>.\<close>

fun startsWith :: "jsstring \<Rightarrow> jsstring \<Rightarrow> bool" where
  "startsWith s [] = True"
| "startsWith [] (n # ns) = False"
| "startsWith (c # cs) (n # ns) = (c = n \<and> startsWith cs ns)"

fun includesString :: "jsstring \<Rightarrow> jsstring \<Rightarrow> bool" where
  "includesString [] needle = (needle = [])"
| "includesString (c # cs) needle = (startsWith (c # cs) needle \<or> includesString cs needle)"

text \<open>Decimal digits of a natural number, and the two-digit form of \<open>month: '2-digit'\<close>.\<close>

fun decimal :: "nat \<Rightarrow> jsstring" where
  "decimal n = (if n < 10 then [of_nat (48 + n)] else decimal (n div 10) @ [of_nat (48 + n mod 10)])"

definition twoDigit :: "nat \<Rightarrow> jsstring" where
  "twoDigit n = [of_nat (48 + n div 10 mod 10), of_nat (48 + n mod 10)]"

text \<open>
  A JavaScript number as the comparators produce it: an integer, an infinity, or NaN.
\<close>

datatype jsnumber = Num int | PosInfinity | NegInfinity | NaN

text \<open>
  \<open>Array.prototype.sort(comparefn)\<close>. ECMAScript requires a stable sort and reads only the
  sign of \<open>comparefn(a, b)\<close> (NaN counts as 0); for a consistent comparator the result is the
  one sorted arrangement that keeps equal elements in their input order, which insertion
  from the right computes.
\<close>

definition notAfter :: "jsnumber \<Rightarrow> bool" where
  "notAfter v = (case v of Num n \<Rightarrow> n \<le> 0 | PosInfinity \<Rightarrow> False | NegInfinity \<Rightarrow> True | NaN \<Rightarrow> True)"

fun insertSorted :: "('a \<Rightarrow> 'a \<Rightarrow> jsnumber) \<Rightarrow> 'a \<Rightarrow> 'a list \<Rightarrow> 'a list" where
  "insertSorted comparefn x [] = [x]"
| "insertSorted comparefn x (y # ys) =
     (if notAfter (comparefn x y) then x # y # ys else y # insertSorted comparefn x ys)"

definition jsSort :: "('a \<Rightarrow> 'a \<Rightarrow> jsnumber) \<Rightarrow> 'a list \<Rightarrow> 'a list" where
  "jsSort comparefn xs = foldr (insertSorted comparefn) xs []"

section \<open>Dates\<close>

text \<open>
  A \<open>Date\<close> holds a time value (milliseconds since the epoch, UTC) or is an Invalid Date.
  The calendar functions follow ECMAScript's definitions (Day, DayFromYear, YearFromTime,
  MonthFromTime, DateFromTime, MakeDay, MakeTime, MakeDate, TimeClip).
\<close>

datatype jsdate = InvalidDate | TimeValue int

definition msPerDay :: int where
  "msPerDay = 86400000"

definition Day :: "int \<Rightarrow> int" where
  "Day t = t div msPerDay"

definition DayFromYear :: "int \<Rightarrow> int" where
  "DayFromYear y =
     365 * (y - 1970) + (y - 1969) div 4 - (y - 1901) div 100 + (y - 1601) div 400"

definition InLeapYear :: "int \<Rightarrow> bool" where
  "InLeapYear y =
     (if y mod 4 \<noteq> 0 then False
      else if y mod 100 \<noteq> 0 then True
      else if y mod 400 \<noteq> 0 then False
      else True)"

definition DaysInYear :: "int \<Rightarrow> int" where
  "DaysInYear y = (if InLeapYear y then 366 else 365)"

text \<open>
  YearFromTime is specified as the largest year whose first day is not after the given
  day; it is computed from the mean year length and corrected by at most one year.
\<close>

definition YearFromDay :: "int \<Rightarrow> int" where
  "YearFromDay d =
     (let y = 1970 + (400 * d) div 146097
      in if d < DayFromYear y then y - 1
         else if DayFromYear (y + 1) \<le> d then y + 1
         else y)"

definition YearFromTime :: "int \<Rightarrow> int" where
  "YearFromTime t = YearFromDay (Day t)"

definition DayWithinYear :: "int \<Rightarrow> int" where
  "DayWithinYear t = Day t - DayFromYear (YearFromTime t)"

text \<open>The month (0 to 11) and the day of the month of a day within a year.\<close>

definition monthOfYearDay :: "bool \<Rightarrow> int \<Rightarrow> int" where
  "monthOfYearDay leap d =
     (let l = (if leap then 1 else 0)
      in if d < 31 then 0
         else if d < 59 + l then 1
         else if d < 90 + l then 2
         else if d < 120 + l then 3
         else if d < 151 + l then 4
         else if d < 181 + l then 5
         else if d < 212 + l then 6
         else if d < 243 + l then 7
         else if d < 273 + l then 8
         else if d < 304 + l then 9
         else if d < 334 + l then 10
         else 11)"

text \<open>The day within the year on which month \<open>m\<close> (0 to 11) starts.\<close>

definition monthStart :: "bool \<Rightarrow> int \<Rightarrow> int" where
  "monthStart leap m =
     (let l = (if leap then 1 else 0)
      in if m = 0 then 0
         else if m = 1 then 31
         else if m = 2 then 59 + l
         else if m = 3 then 90 + l
         else if m = 4 then 120 + l
         else if m = 5 then 151 + l
         else if m = 6 then 181 + l
         else if m = 7 then 212 + l
         else if m = 8 then 243 + l
         else if m = 9 then 273 + l
         else if m = 10 then 304 + l
         else 334 + l)"

definition MonthFromTime :: "int \<Rightarrow> int" where
  "MonthFromTime t = monthOfYearDay (InLeapYear (YearFromTime t)) (DayWithinYear t)"

definition DateFromTime :: "int \<Rightarrow> int" where
  "DateFromTime t =
     DayWithinYear t - monthStart (InLeapYear (YearFromTime t)) (MonthFromTime t) + 1"

definition MakeTime :: "int \<Rightarrow> int \<Rightarrow> int \<Rightarrow> int \<Rightarrow> int" where
  "MakeTime hour minute sec ms = hour * 3600000 + minute * 60000 + sec * 1000 + ms"

definition MakeDay :: "int \<Rightarrow> int \<Rightarrow> int \<Rightarrow> int" where
  "MakeDay year month date =
     (let ym = year + month div 12; mn = month mod 12
      in DayFromYear ym + monthStart (InLeapYear ym) mn + date - 1)"

definition MakeDate :: "int \<Rightarrow> int \<Rightarrow> int" where
  "MakeDate day time = day * msPerDay + time"

definition TimeClip :: "int \<Rightarrow> jsdate" where
  "TimeClip time = (if \<bar>time\<bar> > 8640000000000000 then InvalidDate else TimeValue time)"

text \<open>
  \<open>Date.UTC(year, month, date, hours, minutes)\<close> on integer arguments. A year from 0 to 99
  stands for 1900 + year.
\<close>

definition Date_UTC :: "int \<Rightarrow> int \<Rightarrow> int \<Rightarrow> int \<Rightarrow> int \<Rightarrow> jsdate" where
  "Date_UTC year month date hours minutes =
     (let yr = (if 0 \<le> year \<and> year \<le> 99 then 1900 + year else year)
      in TimeClip (MakeDate (MakeDay yr month date) (MakeTime hours minutes 0 0)))"

section \<open>The host environment\<close>

text \<open>
  What the scripts read from their host and cannot be read off their source: the time zone
  database's offset of Asia/Seoul from UTC (in minutes, at a given instant), the \<open>Date\<close>
  constructor's parser for time stamps, the collation behind \<open>String.prototype.localeCompare\<close>,
  \<open>String.prototype.toLowerCase\<close>, the clock, and the file system's failures. The clock is
  read by \<open>new Date()\<close>; every reading of a run is taken at a different place of the run, and
  \<open>now\<close> gives the reading taken at each place.
\<close>

datatype site =
  CourseWorkWhen nat nat
| AnnouncementWhen nat nat
| SnapshotGeneratedAt nat
| ManifestGeneratedAt
| DataGeneratedAt

record env =
  seoulOffsetMinutes :: "int \<Rightarrow> int"
  dateParse :: "jsstring \<Rightarrow> jsdate"
  localeCompare :: "jsstring \<Rightarrow> jsstring \<Rightarrow> int"
  toLowerCase :: "jsstring \<Rightarrow> jsstring"
  now :: "site \<Rightarrow> int"
  mkdirFails :: bool
  writeFails :: "jsstring \<Rightarrow> bool"

datatype jserror = RangeError | TypeError

section \<open>googleDueToDate, kstDayKey, kstLabel\<close>

text \<open>
  The Classroom API's \<open>Date\<close> and \<open>TimeOfDay\<close> objects. A field left out of the JSON is
  \<open>undefined\<close>; \<open>Date.UTC\<close> of an undefined argument is NaN.
\<close>

record gdate =
  d_year :: "int option"
  d_month :: "int option"
  d_day :: "int option"

record gtime =
  t_hours :: "int option"
  t_minutes :: "int option"

text \<open>
  \<open>googleDueToDate(dueDate, dueTime, tzOffsetMinutes = 9 * 60)\<close>; the callers pass no third
  argument, which is written out as 540. \<open>None\<close> is \<open>null\<close>.
\<close>

definition googleDueToDate :: "gdate option \<Rightarrow> gtime option \<Rightarrow> int \<Rightarrow> jsdate option" where
  "googleDueToDate dueDate dueTime tzOffsetMinutes =
     (case dueDate of
        None \<Rightarrow> None
      | Some dd \<Rightarrow>
          (let hour = (case dueTime of None \<Rightarrow> 23
                       | Some tm \<Rightarrow> (case t_hours tm of None \<Rightarrow> 23 | Some h \<Rightarrow> h));
               minute = (case dueTime of None \<Rightarrow> 59
                         | Some tm \<Rightarrow> (case t_minutes tm of None \<Rightarrow> 59 | Some m \<Rightarrow> m))
           in Some
             (case d_year dd of
                None \<Rightarrow> InvalidDate
              | Some year \<Rightarrow>
                  (case d_month dd of
                     None \<Rightarrow> InvalidDate
                   | Some month \<Rightarrow>
                       (case d_day dd of
                          None \<Rightarrow> InvalidDate
                        | Some day \<Rightarrow>
                            (case Date_UTC year (month - 1) day hour minute of
                               InvalidDate \<Rightarrow> InvalidDate
                             | TimeValue utc \<Rightarrow> TimeClip (utc - tzOffsetMinutes * 60000)))))))"

text \<open>
  \<open>kstDayKey(d)\<close>: the year, month and day parts of
  \<open>Intl.DateTimeFormat('en-CA', {timeZone: 'Asia/Seoul', year: 'numeric', month: '2-digit',
  day: '2-digit'}).formatToParts(d)\<close>, joined by hyphens. Formatting an Invalid Date throws a
  RangeError. The parts are those of the Gregorian calendar day of the local time; the
  year is the year of the era, printed without padding.
\<close>

definition kstDayKey :: "env \<Rightarrow> jsdate \<Rightarrow> jserror + jsstring" where
  "kstDayKey E d =
     (case d of
        InvalidDate \<Rightarrow> Inl RangeError
      | TimeValue t \<Rightarrow>
          (let local = t + seoulOffsetMinutes E t * 60000;
               year = YearFromTime local;
               y = decimal (nat (if 1 \<le> year then year else 1 - year));
               m = twoDigit (nat (MonthFromTime local + 1));
               da = twoDigit (nat (DateFromTime local))
           in Inr (y @ lit ''-'' @ m @ lit ''-'' @ da)))"

text \<open>\<open>kstLabel(dayKey)\<close>: \<open>dayKey.replace(/-/g, '.')\<close>.\<close>

definition kstLabel :: "jsstring \<Rightarrow> jsstring" where
  "kstLabel dayKey = map (\<lambda>c. if c = 0x2D then 0x2E else c) dayKey"

section \<open>The day-bucketed build (build-days)\<close>

subsection \<open>Remote records and normalised items\<close>

record course =
  c_id :: jsstring
  c_name :: jsstring
  c_alternateLink :: "jsstring option"

record courseWork =
  w_id :: jsstring
  w_title :: "jsstring option"
  w_alternateLink :: "jsstring option"
  w_workType :: "jsstring option"
  w_dueDate :: "gdate option"
  w_dueTime :: "gtime option"
  w_updateTime :: "jsstring option"
  w_creationTime :: "jsstring option"

record announcement =
  a_id :: jsstring
  a_text :: "jsstring option"
  a_updateTime :: "jsstring option"
  a_creationTime :: "jsstring option"

text \<open>
  An item of the output. \<open>dueAt\<close> and \<open>createdAt\<close> are written by \<open>toISOString()\<close>, and the
  comparator reads \<open>createdAt\<close> back with \<open>Date.parse\<close>, which returns the time value the
  string was printed from; the fields hold that time value.
\<close>

record item =
  i_id :: jsstring
  i_title :: "jsstring option"
  i_link :: "jsstring option"
  i_dueAt :: "int option"
  i_topic :: jsstring
  i_createdAt :: int

text \<open>
  A remote call either rejects or resolves with a response whose list may be absent.
\<close>

datatype 'a fetched = Fails | Returns "'a list option"

record run_input =
  GOOGLE_CLIENT_ID :: "jsstring option"
  GOOGLE_CLIENT_SECRET :: "jsstring option"
  tokenFileParses :: bool
  coursesList :: "course fetched"
  courseWorkList :: "jsstring \<Rightarrow> courseWork fetched"
  announcementsList :: "jsstring \<Rightarrow> announcement fetched"

datatype error =
  MissingEnvVar jsstring
| TokenFileUnreadable
| CoursesListFailed
| DirectoryNotCreated
| FileNotWritten jsstring
| UncaughtTypeError

definition mustGetEnv :: "jsstring \<Rightarrow> jsstring option \<Rightarrow> error + jsstring" where
  "mustGetEnv name v = (if truthy v then Inr (orEmpty v) else Inl (MissingEnvVar name))"

subsection \<open>One record\<close>

text \<open>
  \<open>whenIso = x.updateTime || x.creationTime; when = whenIso ? new Date(whenIso) : new Date()\<close>.
\<close>

definition anchorDate :: "env \<Rightarrow> site \<Rightarrow> jsstring option \<Rightarrow> jsstring option \<Rightarrow> jsdate" where
  "anchorDate E s updateTime creationTime =
     (let whenIso = (if truthy updateTime then updateTime else creationTime)
      in if truthy whenIso then dateParse E (orEmpty whenIso) else TimeValue (now E s))"

text \<open>
  What one pass through a loop body does: \<open>continue\<close>, throw (the enclosing \<open>try\<close> then
  ends the loop), or call \<open>pushItem\<close> (or \<open>items.push\<close>) once.
\<close>

datatype 'a step = Continue | Thrown jserror | Pushed 'a

type_synonym push = "jsstring \<times> jsstring \<times> item"

text \<open>The body of the loop over a course's coursework.\<close>

definition courseWorkStep :: "env \<Rightarrow> site \<Rightarrow> course \<Rightarrow> courseWork \<Rightarrow> push step" where
  "courseWorkStep E s c w =
     (let when = anchorDate E s (w_updateTime w) (w_creationTime w)
      in case kstDayKey E when of
           Inl e \<Rightarrow> Thrown e
         | Inr dayKey \<Rightarrow>
             (case when of
                InvalidDate \<Rightarrow> Thrown RangeError
              | TimeValue created \<Rightarrow>
                  (case googleDueToDate (w_dueDate w) (w_dueTime w) 540 of
                     Some InvalidDate \<Rightarrow> Thrown RangeError
                   | due \<Rightarrow>
                       Pushed (dayKey, c_name c,
                         \<lparr> i_id = lit ''cw:'' @ c_id c @ lit '':'' @ w_id w,
                           i_title = w_title w,
                           i_link = w_alternateLink w,
                           i_dueAt = (case due of Some (TimeValue t) \<Rightarrow> Some t | _ \<Rightarrow> None),
                           i_topic = orDefault (w_workType w) (lit ''COURSEWORK''),
                           i_createdAt = created \<rparr>))))"

text \<open>The body of the loop over a course's announcements.\<close>

definition announcementStep :: "env \<Rightarrow> site \<Rightarrow> course \<Rightarrow> announcement \<Rightarrow> push step" where
  "announcementStep E s c a =
     (let txt = normalizeText (a_text a)
      in if txt = [] then Continue
         else
           (let when = anchorDate E s (a_updateTime a) (a_creationTime a)
            in case kstDayKey E when of
                 Inl e \<Rightarrow> Thrown e
               | Inr dayKey \<Rightarrow>
                   (case when of
                      InvalidDate \<Rightarrow> Thrown RangeError
                    | TimeValue created \<Rightarrow>
                        Pushed (dayKey, c_name c,
                          \<lparr> i_id = lit ''ann:'' @ c_id c @ lit '':'' @ a_id a,
                            i_title = Some (truncateTitle txt),
                            i_link = orNull (c_alternateLink c),
                            i_dueAt = None,
                            i_topic = lit ''ANNOUNCEMENT'',
                            i_createdAt = created \<rparr>))))"

subsection \<open>The loops\<close>

text \<open>
  \<open>try { for (const x of xs) { body } } catch { }\<close>: the pushes made, in order, up to the
  first throw. The body is given the position of the record in the list.
\<close>

fun tryForOf :: "(nat \<Rightarrow> 'r \<Rightarrow> 'p step) \<Rightarrow> nat \<Rightarrow> 'r list \<Rightarrow> 'p list" where
  "tryForOf body j [] = []"
| "tryForOf body j (x # xs) =
     (case body j x of
        Continue \<Rightarrow> tryForOf body (Suc j) xs
      | Thrown e \<Rightarrow> []
      | Pushed p \<Rightarrow> p # tryForOf body (Suc j) xs)"

text \<open>A remote list call inside the \<open>try\<close>: a rejection is caught like any other throw.\<close>

definition tryFetch :: "'r fetched \<Rightarrow> (nat \<Rightarrow> 'r \<Rightarrow> 'p step) \<Rightarrow> 'p list" where
  "tryFetch res body =
     (case res of Fails \<Rightarrow> [] | Returns data \<Rightarrow> tryForOf body 0 (orEmptyList data))"

text \<open>The pushes of course number \<open>i\<close>: its coursework, then its announcements.\<close>

definition coursePushes :: "env \<Rightarrow> run_input \<Rightarrow> nat \<Rightarrow> course \<Rightarrow> push list" where
  "coursePushes E inp i c =
     tryFetch (courseWorkList inp (c_id c)) (\<lambda>j. courseWorkStep E (CourseWorkWhen i j) c)
     @ tryFetch (announcementsList inp (c_id c)) (\<lambda>j. announcementStep E (AnnouncementWhen i j) c)"

fun coursesPushes :: "env \<Rightarrow> run_input \<Rightarrow> nat \<Rightarrow> course list \<Rightarrow> push list" where
  "coursesPushes E inp i [] = []"
| "coursesPushes E inp i (c # cs) = coursePushes E inp i c @ coursesPushes E inp (Suc i) cs"

subsection \<open>dayBuckets\<close>

text \<open>
  A \<open>Map\<close> iterates in insertion order and \<open>set\<close> on a present key keeps the key's place:
  an association list with \<open>AList.update\<close>. \<open>dayBuckets\<close> maps a day key to a map from a
  course name to the items pushed for them.
\<close>

type_synonym buckets = "(jsstring \<times> (jsstring \<times> item list) list) list"

definition pushItem :: "jsstring \<Rightarrow> jsstring \<Rightarrow> item \<Rightarrow> buckets \<Rightarrow> buckets" where
  "pushItem dayKey courseName it dayBuckets =
     (let byCourse = (case map_of dayBuckets dayKey of None \<Rightarrow> [] | Some m \<Rightarrow> m);
          items = (case map_of byCourse courseName of None \<Rightarrow> [] | Some xs \<Rightarrow> xs)
      in AList.update dayKey (AList.update courseName (items @ [it]) byCourse) dayBuckets)"

definition applyPushes :: "push list \<Rightarrow> buckets \<Rightarrow> buckets" where
  "applyPushes ps dayBuckets = foldl (\<lambda>b (dayKey, courseName, it). pushItem dayKey courseName it b) dayBuckets ps"

subsection \<open>Ordering and output\<close>

text \<open>
  The comparator of \<open>items.sort\<close>. \<open>createdAt\<close> is always set, so \<open>at\<close> and \<open>bt\<close> are the
  parsed time values.
\<close>

definition compareItems :: "env \<Rightarrow> item \<Rightarrow> item \<Rightarrow> jsnumber" where
  "compareItems E a b =
     (let at = i_createdAt a; bt = i_createdAt b
      in if at \<noteq> bt then Num (bt - at)
         else Num (localeCompare E (orEmpty (i_title a)) (orEmpty (i_title b))))"

record group =
  g_name :: jsstring
  g_items :: "item list"

record snapshot =
  s_generatedAt :: int
  s_day :: jsstring
  s_groups :: "group list"

record dayEntry =
  e_day :: jsstring
  e_label :: jsstring

record manifest =
  m_generatedAt :: int
  m_latestDay :: "jsstring option"
  m_days :: "dayEntry list"

datatype doc = SnapshotDoc snapshot | ManifestDoc manifest

text \<open>
  The result of a run: the files written, in order, and the error that ended the run with
  exit status 1, if any.
\<close>

record run_result =
  written :: "(jsstring \<times> doc) list"
  exitError :: "error option"

definition groupsOf :: "env \<Rightarrow> (jsstring \<times> item list) list \<Rightarrow> group list" where
  "groupsOf E byCourse =
     map (\<lambda>(name, items). \<lparr> g_name = name, g_items = jsSort (compareItems E) items \<rparr>) byCourse"

definition dayPath :: "jsstring \<Rightarrow> jsstring" where
  "dayPath dayKey = lit ''./docs/days/'' @ dayKey @ lit ''.json''"

text \<open>The loop over \<open>days\<close> that writes one file per day; \<open>k\<close> counts the days done.\<close>

fun writeDays :: "env \<Rightarrow> buckets \<Rightarrow> nat \<Rightarrow> jsstring list \<Rightarrow> (jsstring \<times> doc) list \<times> error option" where
  "writeDays E dayBuckets k [] = ([], None)"
| "writeDays E dayBuckets k (dayKey # rest) =
     (case map_of dayBuckets dayKey of
        None \<Rightarrow> ([], Some UncaughtTypeError)
      | Some byCourse \<Rightarrow>
          (let out = \<lparr> s_generatedAt = now E (SnapshotGeneratedAt k), s_day = dayKey,
                       s_groups = groupsOf E byCourse \<rparr>
           in if writeFails E (dayPath dayKey) then ([], Some (FileNotWritten (dayPath dayKey)))
              else (let (files, err) = writeDays E dayBuckets (Suc k) rest
                    in ((dayPath dayKey, SnapshotDoc out) # files, err))))"

definition manifestOf :: "env \<Rightarrow> jsstring list \<Rightarrow> manifest" where
  "manifestOf E days =
     \<lparr> m_generatedAt = now E ManifestGeneratedAt,
       m_latestDay = (if days = [] then None else orNull (Some (last days))),
       m_days = map (\<lambda>d. \<lparr> e_day = d, e_label = kstLabel d \<rparr>) days \<rparr>"

definition indexPath :: jsstring where
  "indexPath = lit ''./docs/days/index.json''"

definition main :: "env \<Rightarrow> run_input \<Rightarrow> run_result" where
  "main E inp =
     (case mustGetEnv (lit ''GOOGLE_CLIENT_ID'') (GOOGLE_CLIENT_ID inp) of
        Inl e \<Rightarrow> \<lparr> written = [], exitError = Some e \<rparr>
      | Inr clientId \<Rightarrow>
     (case mustGetEnv (lit ''GOOGLE_CLIENT_SECRET'') (GOOGLE_CLIENT_SECRET inp) of
        Inl e \<Rightarrow> \<lparr> written = [], exitError = Some e \<rparr>
      | Inr clientSecret \<Rightarrow>
     if \<not> tokenFileParses inp then \<lparr> written = [], exitError = Some TokenFileUnreadable \<rparr>
     else
     (case coursesList inp of
        Fails \<Rightarrow> \<lparr> written = [], exitError = Some CoursesListFailed \<rparr>
      | Returns data \<Rightarrow>
          (let courses = orEmptyList data;
               dayBuckets = applyPushes (coursesPushes E inp 0 courses) [];
               days = sort (map fst dayBuckets)
           in if mkdirFails E then \<lparr> written = [], exitError = Some DirectoryNotCreated \<rparr>
              else
                (case writeDays E dayBuckets 0 days of
                   (files, Some e) \<Rightarrow> \<lparr> written = files, exitError = Some e \<rparr>
                 | (files, None) \<Rightarrow>
                     if writeFails E indexPath
                     then \<lparr> written = files, exitError = Some (FileNotWritten indexPath) \<rparr>
                     else \<lparr> written = files @ [(indexPath, ManifestDoc (manifestOf E days))],
                            exitError = None \<rparr>)))))"

section \<open>The flat build (build-data.js)\<close>

record flatItem =
  f_id :: jsstring
  f_title :: "jsstring option"
  f_link :: "jsstring option"
  f_dueAt :: "int option"
  f_topic :: jsstring

definition flatCourseWorkStep :: "course \<Rightarrow> courseWork \<Rightarrow> flatItem step" where
  "flatCourseWorkStep c w =
     (case googleDueToDate (w_dueDate w) (w_dueTime w) 540 of
        Some InvalidDate \<Rightarrow> Thrown RangeError
      | due \<Rightarrow>
          Pushed
            \<lparr> f_id = lit ''cw:'' @ c_id c @ lit '':'' @ w_id w,
              f_title = w_title w,
              f_link = w_alternateLink w,
              f_dueAt = (case due of Some (TimeValue t) \<Rightarrow> Some t | _ \<Rightarrow> None),
              f_topic = orDefault (w_workType w) (lit ''COURSEWORK'') \<rparr>)"

definition looksLikeHomework :: "env \<Rightarrow> jsstring \<Rightarrow> bool" where
  "looksLikeHomework E txt =
     (let hay = toLowerCase E txt
      in includesString hay (lit ''homework'') \<or>
         includesString hay (lit ''assignment'') \<or>
         includesString hay (lit ''due'') \<or>
         includesString hay (lit ''quiz'') \<or>
         includesString hay (lit ''test'') \<or>
         includesString hay (lit ''read'') \<or>
         includesString hay (lit ''watch'') \<or>
         includesString hay (lit ''worksheet''))"

definition flatAnnouncementStep :: "env \<Rightarrow> course \<Rightarrow> announcement \<Rightarrow> flatItem step" where
  "flatAnnouncementStep E c a =
     (let txt = normalizeText (a_text a)
      in if txt = [] then Continue
         else if \<not> looksLikeHomework E txt then Continue
         else
           Pushed
             \<lparr> f_id = lit ''ann:'' @ c_id c @ lit '':'' @ a_id a,
               f_title = Some (truncateTitle txt),
               f_link = orNull (c_alternateLink c),
               f_dueAt = None,
               f_topic = lit ''ANNOUNCEMENT'' \<rparr>)"

text \<open>\<open>x.dueAt ? Date.parse(x.dueAt) : Infinity\<close>, and the subtraction of two such numbers.\<close>

definition dueNumber :: "int option \<Rightarrow> jsnumber" where
  "dueNumber dueAt = (case dueAt of None \<Rightarrow> PosInfinity | Some t \<Rightarrow> Num t)"

fun jsMinus :: "jsnumber \<Rightarrow> jsnumber \<Rightarrow> jsnumber" where
  "jsMinus (Num a) (Num b) = Num (a - b)"
| "jsMinus NaN b = NaN"
| "jsMinus a NaN = NaN"
| "jsMinus PosInfinity PosInfinity = NaN"
| "jsMinus NegInfinity NegInfinity = NaN"
| "jsMinus PosInfinity b = PosInfinity"
| "jsMinus NegInfinity b = NegInfinity"
| "jsMinus (Num a) PosInfinity = NegInfinity"
| "jsMinus (Num a) NegInfinity = PosInfinity"

text \<open>The comparator of the flat build's \<open>items.sort\<close> (``due date first, then title'').\<close>

definition compareFlatItems :: "env \<Rightarrow> flatItem \<Rightarrow> flatItem \<Rightarrow> jsnumber" where
  "compareFlatItems E a b =
     (let ad = dueNumber (f_dueAt a); bd = dueNumber (f_dueAt b)
      in if ad \<noteq> bd then jsMinus ad bd
         else Num (localeCompare E (orEmpty (f_title a)) (orEmpty (f_title b))))"

record flatGroup =
  fg_name :: jsstring
  fg_items :: "flatItem list"

record flatDoc =
  fd_generatedAt :: int
  fd_groups :: "flatGroup list"

record flat_result =
  dataWritten :: "flatDoc option"
  flatExitError :: "error option"

text \<open>The body of the loop over the courses: the course's group.\<close>

definition flatGroupOf :: "env \<Rightarrow> run_input \<Rightarrow> course \<Rightarrow> flatGroup" where
  "flatGroupOf E inp c =
     (let items =
            tryFetch (courseWorkList inp (c_id c)) (\<lambda>j. flatCourseWorkStep c)
            @ tryFetch (announcementsList inp (c_id c)) (\<lambda>j. flatAnnouncementStep E c)
      in \<lparr> fg_name = c_name c, fg_items = jsSort (compareFlatItems E) items \<rparr>)"

definition dataPath :: jsstring where
  "dataPath = lit ''./docs/data.json''"

definition mainFlat :: "env \<Rightarrow> run_input \<Rightarrow> flat_result" where
  "mainFlat E inp =
     (case mustGetEnv (lit ''GOOGLE_CLIENT_ID'') (GOOGLE_CLIENT_ID inp) of
        Inl e \<Rightarrow> \<lparr> dataWritten = None, flatExitError = Some e \<rparr>
      | Inr clientId \<Rightarrow>
     (case mustGetEnv (lit ''GOOGLE_CLIENT_SECRET'') (GOOGLE_CLIENT_SECRET inp) of
        Inl e \<Rightarrow> \<lparr> dataWritten = None, flatExitError = Some e \<rparr>
      | Inr clientSecret \<Rightarrow>
     if \<not> tokenFileParses inp then \<lparr> dataWritten = None, flatExitError = Some TokenFileUnreadable \<rparr>
     else
     (case coursesList inp of
        Fails \<Rightarrow> \<lparr> dataWritten = None, flatExitError = Some CoursesListFailed \<rparr>
      | Returns data \<Rightarrow>
          (let groups = map (flatGroupOf E inp) (orEmptyList data);
               out = \<lparr> fd_generatedAt = now E DataGeneratedAt, fd_groups = groups \<rparr>
           in if mkdirFails E then \<lparr> dataWritten = None, flatExitError = Some DirectoryNotCreated \<rparr>
              else if writeFails E dataPath
              then \<lparr> dataWritten = None, flatExitError = Some (FileNotWritten dataPath) \<rparr>
              else \<lparr> dataWritten = Some out, flatExitError = None \<rparr>))))"

section \<open>Authorization (poll.js)\<close>

subsection \<open>The loopback listener of startLocalAuth\<close>






record response =
  statusCode :: nat
  bodyText :: jsstring





subsection \<open>The polling loop of startDeviceAuth\<close>

record tokens =
  access_token :: "jsstring option"
  refresh_token :: "jsstring option"

text \<open>
  The device endpoint's answer; \<open>interval\<close> and \<open>expires_in\<close> are numbers of seconds
  (RFC 8628), absent or zero ones being replaced by the defaults.
\<close>

record device =
  device_code :: jsstring
  interval :: "nat option"
  expires_in :: "nat option"

datatype deviceStart = StartThrows | StartNotOk | StartOk device

text \<open>
  One poll of the token endpoint: the request throws, or answers with \<open>tokenRes.ok\<close> and
  the tokens, or with an error object whose \<open>error\<close> field may be absent.
\<close>

datatype tokenResponse = TokenThrows | TokenOk tokens | TokenError "jsstring option"

datatype authResult = Authorized tokens | Failed | TimedOut

definition intervalMs :: "device \<Rightarrow> nat" where
  "intervalMs dev = (case interval dev of None \<Rightarrow> 5 | Some n \<Rightarrow> if n = 0 then 5 else n) * 1000"

definition lifetimeMs :: "device \<Rightarrow> nat" where
  "lifetimeMs dev = (case expires_in dev of None \<Rightarrow> 600 | Some n \<Rightarrow> if n = 0 then 600 else n) * 1000"

definition retryable :: "tokenResponse \<Rightarrow> bool" where
  "retryable r =
     (case r of
        TokenError (Some e) \<Rightarrow> e = lit ''authorization_pending'' \<or> e = lit ''slow_down''
      | _ \<Rightarrow> False)"

text \<open>
  The \<open>while (Date.now() < expiresAt)\<close> loop. \<open>clock\<close> is the reading of \<open>Date.now()\<close> at the
  loop test and \<open>n\<close> counts the polls made. Poll \<open>n\<close> sleeps \<open>intervalMs\<close> and then asks the
  token endpoint; \<open>delay n\<close> is whatever time that takes beyond the sleep (milliseconds).
\<close>

function pollLoop ::
  "device \<Rightarrow> (nat \<Rightarrow> nat) \<Rightarrow> (nat \<Rightarrow> tokenResponse) \<Rightarrow> nat \<Rightarrow> nat \<Rightarrow> nat \<Rightarrow> authResult" where
  "pollLoop dev delay answer expiresAt clock n =
     (if clock < expiresAt
      then (case answer n of
              TokenThrows \<Rightarrow> Failed
            | TokenOk tok \<Rightarrow> Authorized tok
            | TokenError e \<Rightarrow>
                if retryable (TokenError e)
                then pollLoop dev delay answer expiresAt (clock + intervalMs dev + delay n) (Suc n)
                else Failed)
      else TimedOut)"
  by pat_completeness auto
termination
  by (relation "measure (\<lambda>(dev, delay, answer, expiresAt, clock, n). expiresAt - clock)")
     (auto simp: intervalMs_def split: option.splits)

definition startDeviceAuth ::
  "deviceStart \<Rightarrow> nat \<Rightarrow> (nat \<Rightarrow> nat) \<Rightarrow> (nat \<Rightarrow> tokenResponse) \<Rightarrow> authResult" where
  "startDeviceAuth start clock delay answer =
     (case start of
        StartThrows \<Rightarrow> Failed
      | StartNotOk \<Rightarrow> Failed
      | StartOk dev \<Rightarrow> pollLoop dev delay answer (clock + lifetimeMs dev) clock 0)"

section \<open>Notions used to state the properties\<close>

subsection \<open>Authorization\<close>

text \<open>
  The reading of \<open>Date.now()\<close> at the loop test before poll \<open>k\<close> of the device flow, when every
  earlier poll was answered and retried.
\<close>

fun pollTime :: "device \<Rightarrow> (nat \<Rightarrow> nat) \<Rightarrow> nat \<Rightarrow> nat \<Rightarrow> nat" where
  "pollTime dev delay clock 0 = clock"
| "pollTime dev delay clock (Suc k) = pollTime dev delay clock k + intervalMs dev + delay k"

text \<open>A device answer with a five second interval, and poll answers to try the flow on.\<close>

definition exampleDevice :: device where
  "exampleDevice = \<lparr> device_code = lit ''dc'', interval = Some 5, expires_in = None \<rparr>"

definition exampleTokens :: tokens where
  "exampleTokens = \<lparr> access_token = Some (lit ''at''), refresh_token = Some (lit ''rt'') \<rparr>"

definition pendingThenSuccess :: "nat \<Rightarrow> tokenResponse" where
  "pendingThenSuccess n =
     (if n = 0 then TokenError (Some (lit ''authorization_pending'')) else TokenOk exampleTokens)"

definition alwaysPending :: "nat \<Rightarrow> tokenResponse" where
  "alwaysPending n = TokenError (Some (lit ''authorization_pending''))"

text \<open>The answer to an accepted callback, and requests to try the listener on.\<close>

definition ok200 :: response where
  "ok200 = \<lparr> statusCode = 200, bodyText = lit ''OK. You can close this tab.'' \<rparr>"




subsection \<open>Text\<close>

text \<open>No two white space code units stand next to each other.\<close>

fun noWhiteSpaceRuns :: "jsstring \<Rightarrow> bool" where
  "noWhiteSpaceRuns [] = True"
| "noWhiteSpaceRuns [c] = True"
| "noWhiteSpaceRuns (c # d # cs) = (\<not> (isWhiteSpace c \<and> isWhiteSpace d) \<and> noWhiteSpaceRuns (d # cs))"

subsection \<open>An example host and example records\<close>

text \<open>
  A host to evaluate the scripts on. Its \<open>localeCompare\<close> is a collation of the kind ICU's
  root collation is on ASCII letters: strings are compared letter by letter without regard
  to case, and case decides only between strings equal up to case, lower case first (so
  \<open>a\<close> sorts before \<open>B\<close>, and \<open>a\<close> before \<open>A\<close>). Its time zone offset is
  that of Asia/Seoul since 1988, and its \<open>Date\<close> parser knows the time stamps of the
  examples.
\<close>

definition asciiLower :: "jsstring \<Rightarrow> jsstring" where
  "asciiLower s = map (\<lambda>c. if 0x41 \<le> c \<and> c \<le> 0x5A then c + 0x20 else c) s"

definition collationKey :: "jsstring \<Rightarrow> jsstring \<times> nat list" where
  "collationKey s = (asciiLower s, map (\<lambda>c. if 0x41 \<le> c \<and> c \<le> 0x5A then 1 else 0) s)"

definition alphabeticCompare :: "jsstring \<Rightarrow> jsstring \<Rightarrow> int" where
  "alphabeticCompare a b =
     (if collationKey a < collationKey b then - 1 else if collationKey a = collationKey b then 0 else 1)"

definition exampleParse :: "jsstring \<Rightarrow> jsdate" where
  "exampleParse s =
     (if s = lit ''2024-01-09T16:00:00Z'' then TimeValue 1704816000000
      else if s = lit ''2024-01-09T18:30:00Z'' then TimeValue 1704825000000
      else if s = lit ''2024-01-01T23:00:00Z'' then TimeValue 1704150000000
      else if s = lit ''2023-12-31T01:00:00Z'' then TimeValue 1703984400000
      else InvalidDate)"

definition exampleEnv :: env where
  "exampleEnv =
     \<lparr> seoulOffsetMinutes = (\<lambda>t. 540), dateParse = exampleParse, localeCompare = alphabeticCompare,
       toLowerCase = asciiLower, now = (\<lambda>s. 1704067200000), mkdirFails = False,
       writeFails = (\<lambda>p. False) \<rparr>"

definition exampleCourse :: course where
  "exampleCourse = \<lparr> c_id = lit ''101'', c_name = lit ''Math'', c_alternateLink = Some (lit ''https://c/101'') \<rparr>"

definition blankAnnouncement :: announcement where
  "blankAnnouncement =
     \<lparr> a_id = lit ''7'', a_text = Some (lit ''   ''), a_updateTime = Some (lit ''2024-01-09T16:00:00Z''),
       a_creationTime = None \<rparr>"

definition longAnnouncement :: announcement where
  "longAnnouncement =
     \<lparr> a_id = lit ''8'',
       a_text = Some (concat (replicate 7 (lit ''Homework due Friday''))),
       a_updateTime = Some (lit ''2024-01-09T16:00:00Z''), a_creationTime = None \<rparr>"

definition spacedAnnouncement :: announcement where
  "spacedAnnouncement =
     \<lparr> a_id = lit ''9'',
       a_text = Some (lit ''  Quiz'' @ [0x9, 0xA] @ lit ''on   Monday ''),
       a_updateTime = None, a_creationTime = Some (lit ''2024-01-09T18:30:00Z'') \<rparr>"

subsection \<open>Comparators and runs\<close>

text \<open>
  What ECMAScript asks of a comparison function for the sort to be defined by it, as far as
  the proofs need it: the sign of \<open>cmp a b\<close> is the opposite of that of \<open>cmp b a\<close>, and
  ``not after'' is transitive.
\<close>

definition consistentCompare :: "('a \<Rightarrow> 'a \<Rightarrow> int) \<Rightarrow> bool" where
  "consistentCompare cmp =
     ((\<forall>a b. (cmp a b < 0) = (0 < cmp b a)) \<and>
      (\<forall>a b c. cmp a b \<le> 0 \<and> cmp b c \<le> 0 \<longrightarrow> cmp a c \<le> 0))"

text \<open>
  The parts of a run of \<open>main\<close>: the courses listed, the \<open>pushItem\<close> calls made for them,
  \<open>dayBuckets\<close> after the loop over the courses, and \<open>days\<close>.
\<close>

definition runCourses :: "run_input \<Rightarrow> course list" where
  "runCourses inp = (case coursesList inp of Fails \<Rightarrow> [] | Returns data \<Rightarrow> orEmptyList data)"

definition runPushes :: "env \<Rightarrow> run_input \<Rightarrow> push list" where
  "runPushes E inp = coursesPushes E inp 0 (runCourses inp)"

definition runBuckets :: "env \<Rightarrow> run_input \<Rightarrow> buckets" where
  "runBuckets E inp = applyPushes (runPushes E inp) []"

definition runDays :: "env \<Rightarrow> run_input \<Rightarrow> jsstring list" where
  "runDays E inp = sort (map fst (runBuckets E inp))"

text \<open>
  The two ends of \<open>main\<close> around the loop over the courses: the error that stops the run
  before it, if any, and the writing of the files from \<open>dayBuckets\<close> after it.
\<close>

definition preflight :: "run_input \<Rightarrow> error option" where
  "preflight inp =
     (case mustGetEnv (lit ''GOOGLE_CLIENT_ID'') (GOOGLE_CLIENT_ID inp) of
        Inl e \<Rightarrow> Some e
      | Inr clientId \<Rightarrow>
          (case mustGetEnv (lit ''GOOGLE_CLIENT_SECRET'') (GOOGLE_CLIENT_SECRET inp) of
             Inl e \<Rightarrow> Some e
           | Inr clientSecret \<Rightarrow>
               if \<not> tokenFileParses inp then Some TokenFileUnreadable
               else (case coursesList inp of Fails \<Rightarrow> Some CoursesListFailed | Returns data \<Rightarrow> None)))"

definition writeOut :: "env \<Rightarrow> buckets \<Rightarrow> run_result" where
  "writeOut E dayBuckets =
     (let days = sort (map fst dayBuckets)
      in if mkdirFails E then \<lparr> written = [], exitError = Some DirectoryNotCreated \<rparr>
         else
           (case writeDays E dayBuckets 0 days of
              (files, Some e) \<Rightarrow> \<lparr> written = files, exitError = Some e \<rparr>
            | (files, None) \<Rightarrow>
                if writeFails E indexPath
                then \<lparr> written = files, exitError = Some (FileNotWritten indexPath) \<rparr>
                else \<lparr> written = files @ [(indexPath, ManifestDoc (manifestOf E days))],
                       exitError = None \<rparr>))"

subsection \<open>An example run\<close>

text \<open>
  Two courses. The coursework of the first has two records updated at the same instant,
  with titles that differ in case; the coursework call of the second fails.
\<close>

definition mathWork :: "courseWork list" where
  "mathWork =
     [\<lparr> w_id = lit ''1'', w_title = Some (lit ''B worksheet''), w_alternateLink = Some (lit ''https://c/101/1''),
        w_workType = Some (lit ''ASSIGNMENT''),
        w_dueDate = Some \<lparr> d_year = Some 2024, d_month = Some 3, d_day = Some 1 \<rparr>, w_dueTime = None,
        w_updateTime = Some (lit ''2024-01-09T16:00:00Z''), w_creationTime = None \<rparr>,
      \<lparr> w_id = lit ''2'', w_title = Some (lit ''a reading''), w_alternateLink = None,
        w_workType = None, w_dueDate = None, w_dueTime = None,
        w_updateTime = Some (lit ''2024-01-09T16:00:00Z''), w_creationTime = None \<rparr>,
      \<lparr> w_id = lit ''3'', w_title = Some (lit ''Essay''), w_alternateLink = None,
        w_workType = None,
        w_dueDate = Some \<lparr> d_year = Some 2024, d_month = Some 2, d_day = Some 1 \<rparr>,
        w_dueTime = Some \<lparr> t_hours = Some 9, t_minutes = None \<rparr>,
        w_updateTime = Some (lit ''2024-01-09T18:30:00Z''), w_creationTime = None \<rparr>]"

definition artCourse :: course where
  "artCourse = \<lparr> c_id = lit ''102'', c_name = lit ''Art'', c_alternateLink = None \<rparr>"

definition artAnnouncements :: "announcement list" where
  "artAnnouncements =
     [\<lparr> a_id = lit ''5'', a_text = Some (lit ''Bring  brushes''),
        a_updateTime = Some (lit ''2024-01-01T23:00:00Z''), a_creationTime = None \<rparr>,
      \<lparr> a_id = lit ''6'', a_text = Some (lit ''Test on colours''),
        a_updateTime = None, a_creationTime = Some (lit ''2023-12-31T01:00:00Z'') \<rparr>]"

definition exampleInput :: run_input where
  "exampleInput =
     \<lparr> GOOGLE_CLIENT_ID = Some (lit ''id''), GOOGLE_CLIENT_SECRET = Some (lit ''secret''),
       tokenFileParses = True,
       coursesList = Returns (Some [exampleCourse, artCourse]),
       courseWorkList = (\<lambda>c. if c = lit ''101'' then Returns (Some mathWork) else Fails),
       announcementsList =
         (\<lambda>c. if c = lit ''101'' then Returns (Some [blankAnnouncement, spacedAnnouncement])
              else Returns (Some artAnnouncements)) \<rparr>"

definition day20231231 :: snapshot where
  "day20231231 =
     \<lparr> s_generatedAt = 1704067200000, s_day = lit ''2023-12-31'',
       s_groups =
         [\<lparr> g_name = lit ''Art'',
             g_items =
               [\<lparr> i_id = lit ''ann:102:6'', i_title = Some (lit ''Test on colours''), i_link = None,
                   i_dueAt = None, i_topic = lit ''ANNOUNCEMENT'', i_createdAt = 1703984400000 \<rparr>] \<rparr>] \<rparr>"

definition day20240102 :: snapshot where
  "day20240102 =
     \<lparr> s_generatedAt = 1704067200000, s_day = lit ''2024-01-02'',
       s_groups =
         [\<lparr> g_name = lit ''Art'',
             g_items =
               [\<lparr> i_id = lit ''ann:102:5'', i_title = Some (lit ''Bring brushes''), i_link = None,
                   i_dueAt = None, i_topic = lit ''ANNOUNCEMENT'', i_createdAt = 1704150000000 \<rparr>] \<rparr>] \<rparr>"

definition mathItems :: "item list" where
  "mathItems =
     [\<lparr> i_id = lit ''cw:101:3'', i_title = Some (lit ''Essay''), i_link = None,
         i_dueAt = Some 1706749140000, i_topic = lit ''COURSEWORK'', i_createdAt = 1704825000000 \<rparr>,
      \<lparr> i_id = lit ''ann:101:9'', i_title = Some (lit ''Quiz on Monday''),
         i_link = Some (lit ''https://c/101''), i_dueAt = None, i_topic = lit ''ANNOUNCEMENT'',
         i_createdAt = 1704825000000 \<rparr>,
      \<lparr> i_id = lit ''cw:101:2'', i_title = Some (lit ''a reading''), i_link = None,
         i_dueAt = None, i_topic = lit ''COURSEWORK'', i_createdAt = 1704816000000 \<rparr>,
      \<lparr> i_id = lit ''cw:101:1'', i_title = Some (lit ''B worksheet''),
         i_link = Some (lit ''https://c/101/1''), i_dueAt = Some 1709305140000,
         i_topic = lit ''ASSIGNMENT'', i_createdAt = 1704816000000 \<rparr>]"

definition day20240110 :: snapshot where
  "day20240110 =
     \<lparr> s_generatedAt = 1704067200000, s_day = lit ''2024-01-10'',
       s_groups = [\<lparr> g_name = lit ''Math'', g_items = mathItems \<rparr>] \<rparr>"

definition exampleManifest :: manifest where
  "exampleManifest =
     \<lparr> m_generatedAt = 1704067200000, m_latestDay = Some (lit ''2024-01-10''),
       m_days =
         [\<lparr> e_day = lit ''2023-12-31'', e_label = lit ''2023.12.31'' \<rparr>,
          \<lparr> e_day = lit ''2024-01-02'', e_label = lit ''2024.01.02'' \<rparr>,
          \<lparr> e_day = lit ''2024-01-10'', e_label = lit ''2024.01.10'' \<rparr>] \<rparr>"

text \<open>The items of the first course's group in the flat build of the example.\<close>

definition mathFlatItems :: "flatItem list" where
  "mathFlatItems =
     [\<lparr> f_id = lit ''cw:101:3'', f_title = Some (lit ''Essay''), f_link = None,
         f_dueAt = Some 1706749140000, f_topic = lit ''COURSEWORK'' \<rparr>,
      \<lparr> f_id = lit ''cw:101:1'', f_title = Some (lit ''B worksheet''),
         f_link = Some (lit ''https://c/101/1''), f_dueAt = Some 1709305140000,
         f_topic = lit ''ASSIGNMENT'' \<rparr>,
      \<lparr> f_id = lit ''cw:101:2'', f_title = Some (lit ''a reading''), f_link = None,
         f_dueAt = None, f_topic = lit ''COURSEWORK'' \<rparr>,
      \<lparr> f_id = lit ''ann:101:9'', f_title = Some (lit ''Quiz on Monday''),
         f_link = Some (lit ''https://c/101''), f_dueAt = None, f_topic = lit ''ANNOUNCEMENT'' \<rparr>]"

definition exampleFlatDoc :: flatDoc where
  "exampleFlatDoc =
     \<lparr> fd_generatedAt = 1704067200000,
       fd_groups =
         [\<lparr> fg_name = lit ''Math'', fg_items = mathFlatItems \<rparr>,
          \<lparr> fg_name = lit ''Art'',
            fg_items =
              [\<lparr> f_id = lit ''ann:102:6'', f_title = Some (lit ''Test on colours''), f_link = None,
                  f_dueAt = None, f_topic = lit ''ANNOUNCEMENT'' \<rparr>] \<rparr>] \<rparr>"

subsection \<open>Comparing two runs\<close>

text \<open>A document, and the result of a run, with every \<open>generatedAt\<close> field blanked.\<close>

definition withoutGeneratedAt :: "doc \<Rightarrow> doc" where
  "withoutGeneratedAt d =
     (case d of
        SnapshotDoc s \<Rightarrow> SnapshotDoc (s \<lparr> s_generatedAt := 0 \<rparr>)
      | ManifestDoc m \<Rightarrow> ManifestDoc (m \<lparr> m_generatedAt := 0 \<rparr>))"

definition exceptGeneratedAt :: "run_result \<Rightarrow> run_result" where
  "exceptGeneratedAt r = r \<lparr> written := map (\<lambda>(p, d). (p, withoutGeneratedAt d)) (written r) \<rparr>"

text \<open>
  Every record the loops date carries a time stamp: each coursework record, and each
  announcement whose normalised text is not empty, has an \<open>updateTime\<close> or a \<open>creationTime\<close>.
\<close>

definition allStamped :: "run_input \<Rightarrow> bool" where
  "allStamped inp =
     (\<forall>c\<in>set (runCourses inp).
        (\<forall>data. courseWorkList inp (c_id c) = Returns data \<longrightarrow>
           (\<forall>w\<in>set (orEmptyList data). truthy (w_updateTime w) \<or> truthy (w_creationTime w))) \<and>
        (\<forall>data. announcementsList inp (c_id c) = Returns data \<longrightarrow>
           (\<forall>a\<in>set (orEmptyList data).
              normalizeText (a_text a) \<noteq> [] \<longrightarrow> truthy (a_updateTime a) \<or> truthy (a_creationTime a))))"

text \<open>
  A run over one coursework record without time stamps, and the same host one day later.
\<close>

definition unstampedInput :: run_input where
  "unstampedInput =
     \<lparr> GOOGLE_CLIENT_ID = Some (lit ''id''), GOOGLE_CLIENT_SECRET = Some (lit ''secret''),
       tokenFileParses = True,
       coursesList = Returns (Some [exampleCourse]),
       courseWorkList =
         (\<lambda>c. Returns (Some
            [\<lparr> w_id = lit ''4'', w_title = Some (lit ''Lab''), w_alternateLink = None,
               w_workType = None, w_dueDate = None, w_dueTime = None,
               w_updateTime = None, w_creationTime = None \<rparr>])),
       announcementsList = (\<lambda>c. Returns None) \<rparr>"

definition laterEnv :: env where
  "laterEnv = exampleEnv \<lparr> now := (\<lambda>s. 1704153600000) \<rparr>"

definition labItem :: "int \<Rightarrow> item" where
  "labItem created =
     \<lparr> i_id = lit ''cw:101:4'', i_title = Some (lit ''Lab''), i_link = None, i_dueAt = None,
       i_topic = lit ''COURSEWORK'', i_createdAt = created \<rparr>"

definition firstRun :: run_result where
  "firstRun =
     \<lparr> written =
         [(lit ''./docs/days/2024-01-01.json'',
           SnapshotDoc \<lparr> s_generatedAt = 1704067200000, s_day = lit ''2024-01-01'',
             s_groups = [\<lparr> g_name = lit ''Math'', g_items = [labItem 1704067200000] \<rparr>] \<rparr>),
          (lit ''./docs/days/index.json'',
           ManifestDoc \<lparr> m_generatedAt = 1704067200000, m_latestDay = Some (lit ''2024-01-01''),
             m_days = [\<lparr> e_day = lit ''2024-01-01'', e_label = lit ''2024.01.01'' \<rparr>] \<rparr>)],
       exitError = None \<rparr>"

definition secondRun :: run_result where
  "secondRun =
     \<lparr> written =
         [(lit ''./docs/days/2024-01-02.json'',
           SnapshotDoc \<lparr> s_generatedAt = 1704153600000, s_day = lit ''2024-01-02'',
             s_groups = [\<lparr> g_name = lit ''Math'', g_items = [labItem 1704153600000] \<rparr>] \<rparr>),
          (lit ''./docs/days/index.json'',
           ManifestDoc \<lparr> m_generatedAt = 1704153600000, m_latestDay = Some (lit ''2024-01-02''),
             m_days = [\<lparr> e_day = lit ''2024-01-02'', e_label = lit ''2024.01.02'' \<rparr>] \<rparr>)],
       exitError = None \<rparr>"

subsection \<open>Calendar dates\<close>

text \<open>
  The days of month \<open>m\<close> (1 to 12) of year \<open>y\<close>, the times of day the Classroom API can
  give, and the day key \<open>YYYY-MM-DD\<close> of a calendar day.
\<close>

definition daysInMonth :: "int \<Rightarrow> int \<Rightarrow> int" where
  "daysInMonth y m =
     (if m = 2 then (if InLeapYear y then 29 else 28)
      else if m = 4 \<or> m = 6 \<or> m = 9 \<or> m = 11 then 30
      else 31)"

definition validTime :: "gtime option \<Rightarrow> bool" where
  "validTime dueTime =
     (case dueTime of
        None \<Rightarrow> True
      | Some tm \<Rightarrow>
          (case t_hours tm of None \<Rightarrow> True | Some h \<Rightarrow> 0 \<le> h \<and> h \<le> 23) \<and>
          (case t_minutes tm of None \<Rightarrow> True | Some mi \<Rightarrow> 0 \<le> mi \<and> mi \<le> 59))"

definition dayString :: "int \<Rightarrow> int \<Rightarrow> int \<Rightarrow> jsstring" where
  "dayString y m d = decimal (nat y) @ lit ''-'' @ twoDigit (nat m) @ lit ''-'' @ twoDigit (nat d)"

section \<open>The device flow\<close>

declare pollLoop.simps [simp del]

lemma intervalMs_pos: "1000 \<le> intervalMs dev"
  by (auto simp: intervalMs_def split: option.splits)

lemma pollTime_mono: "j \<le> k \<Longrightarrow> pollTime dev delay t0 j \<le> pollTime dev delay t0 k"
  by (induction k) (auto simp: le_Suc_eq)

lemma pollTime_lower: "t0 + k * 1000 \<le> pollTime dev delay t0 k"
proof (induction k)
  case 0
  then show ?case by simp
next
  case (Suc k)
  then show ?case using intervalMs_pos [of dev] by simp
qed

lemma pollLoop_advance:
  assumes "\<forall>j<k. retryable (answer j)" and "pollTime dev delay t0 k < ex"
  shows "pollLoop dev delay answer ex t0 0 = pollLoop dev delay answer ex (pollTime dev delay t0 k) k"
  using assms
proof (induction k)
  case 0
  then show ?case by simp
next
  case (Suc k)
  have lt: "pollTime dev delay t0 k < ex"
    using Suc.prems(2) by simp
  have r: "retryable (answer k)" using Suc.prems(1) by simp
  then obtain e where e: "answer k = TokenError e"
    by (cases "answer k") (auto simp: retryable_def)
  have "pollLoop dev delay answer ex t0 0 = pollLoop dev delay answer ex (pollTime dev delay t0 k) k"
    using Suc.IH Suc.prems(1) lt by simp
  also have "\<dots> = pollLoop dev delay answer ex (pollTime dev delay t0 (Suc k)) (Suc k)"
    using lt r e by (subst pollLoop.simps) simp
  finally show ?case .
qed

lemma pollLoop_expired:
  assumes "\<forall>j<k. retryable (answer j)" and "ex \<le> pollTime dev delay t0 k"
  shows "pollLoop dev delay answer ex t0 0 = TimedOut"
  using assms
proof (induction k)
  case 0
  then show ?case by (subst pollLoop.simps) simp
next
  case (Suc k)
  show ?case
  proof (cases "ex \<le> pollTime dev delay t0 k")
    case True
    with Suc show ?thesis by simp
  next
    case False
    then have lt: "pollTime dev delay t0 k < ex" by simp
    have r: "retryable (answer k)" using Suc.prems(1) by simp
    then obtain e where e: "answer k = TokenError e"
      by (cases "answer k") (auto simp: retryable_def)
    have "pollLoop dev delay answer ex t0 0 = pollLoop dev delay answer ex (pollTime dev delay t0 k) k"
      using pollLoop_advance [of k answer dev delay t0 ex] Suc.prems(1) lt by simp
    also have "\<dots> = pollLoop dev delay answer ex (pollTime dev delay t0 (Suc k)) (Suc k)"
      using lt r e by (subst pollLoop.simps) simp
    also have "\<dots> = TimedOut"
      using Suc.prems(2) by (subst pollLoop.simps) simp
    finally show ?thesis .
  qed
qed

lemma pollLoop_always_retry:
  assumes "\<forall>j. retryable (answer j)"
  shows "pollLoop dev delay answer ex t0 0 = TimedOut"
proof -
  have "ex \<le> pollTime dev delay t0 ex"
    using pollTime_lower [of t0 ex dev delay] by simp
  then show ?thesis using pollLoop_expired [of ex answer ex dev delay t0] assms by simp
qed

text \<open>
  Claim C3. The device flow polls at the interval the server gave (5 seconds when it gave
  none), each poll \<open>intervalMs\<close> after the previous loop test. While the answers are
  \<open>authorization_pending\<close> or \<open>slow_down\<close> the loop polls again; the first other answer
  that arrives at a loop test before the expiry decides the flow: tokens make it return
  them, anything else makes it fail. When the expiry (600 seconds when the server gave
  none) is reached after retried answers only, the flow times out and returns no tokens;
  in particular it does so when every answer is a retried one.
\<close>

theorem device_flow_outcomes:
  "(\<forall>k tok. (\<forall>j<k. retryable (answer j)) \<and> pollTime dev delay t0 k < t0 + lifetimeMs dev \<and>
        answer k = TokenOk tok
      \<longrightarrow> startDeviceAuth (StartOk dev) t0 delay answer = Authorized tok) \<and>
   (\<forall>k. (\<forall>j<k. retryable (answer j)) \<and> pollTime dev delay t0 k < t0 + lifetimeMs dev \<and>
        \<not> retryable (answer k) \<and> (\<forall>tok. answer k \<noteq> TokenOk tok)
      \<longrightarrow> startDeviceAuth (StartOk dev) t0 delay answer = Failed) \<and>
   (\<forall>k. (\<forall>j<k. retryable (answer j)) \<and> t0 + lifetimeMs dev \<le> pollTime dev delay t0 k
      \<longrightarrow> startDeviceAuth (StartOk dev) t0 delay answer = TimedOut) \<and>
   ((\<forall>j. retryable (answer j)) \<longrightarrow> startDeviceAuth (StartOk dev) t0 delay answer = TimedOut) \<and>
   (\<forall>k. pollTime dev delay t0 (Suc k) = pollTime dev delay t0 k + intervalMs dev + delay k) \<and>
   intervalMs dev = (case interval dev of None \<Rightarrow> 5000 | Some n \<Rightarrow> if n = 0 then 5000 else n * 1000) \<and>
   lifetimeMs dev = (case expires_in dev of None \<Rightarrow> 600000 | Some n \<Rightarrow> if n = 0 then 600000 else n * 1000)"
proof -
  let ?ex = "t0 + lifetimeMs dev"
  have ok: "startDeviceAuth (StartOk dev) t0 delay answer = Authorized tok"
    if "\<forall>j<k. retryable (answer j)" "pollTime dev delay t0 k < ?ex" "answer k = TokenOk tok" for k tok
  proof -
    have "pollLoop dev delay answer ?ex t0 0 = pollLoop dev delay answer ?ex (pollTime dev delay t0 k) k"
      using that by (intro pollLoop_advance) auto
    also have "\<dots> = Authorized tok"
      using that by (subst pollLoop.simps) simp
    finally show ?thesis by (simp add: startDeviceAuth_def)
  qed
  have bad: "startDeviceAuth (StartOk dev) t0 delay answer = Failed"
    if "\<forall>j<k. retryable (answer j)" "pollTime dev delay t0 k < ?ex" "\<not> retryable (answer k)"
      "\<forall>tok. answer k \<noteq> TokenOk tok" for k
  proof -
    have "pollLoop dev delay answer ?ex t0 0 = pollLoop dev delay answer ?ex (pollTime dev delay t0 k) k"
      using that by (intro pollLoop_advance) auto
    also have "\<dots> = Failed"
      using that by (subst pollLoop.simps) (cases "answer k"; simp)
    finally show ?thesis by (simp add: startDeviceAuth_def)
  qed
  have late: "startDeviceAuth (StartOk dev) t0 delay answer = TimedOut"
    if "\<forall>j<k. retryable (answer j)" "?ex \<le> pollTime dev delay t0 k" for k
    using pollLoop_expired [of k answer ?ex dev delay t0] that by (simp add: startDeviceAuth_def)
  have never: "startDeviceAuth (StartOk dev) t0 delay answer = TimedOut" if "\<forall>j. retryable (answer j)"
    using pollLoop_always_retry [OF that] by (simp add: startDeviceAuth_def)
  have iv: "intervalMs dev = (case interval dev of None \<Rightarrow> 5000 | Some n \<Rightarrow> if n = 0 then 5000 else n * 1000)"
    by (simp add: intervalMs_def split: option.splits)
  have lt: "lifetimeMs dev = (case expires_in dev of None \<Rightarrow> 600000 | Some n \<Rightarrow> if n = 0 then 600000 else n * 1000)"
    by (simp add: lifetimeMs_def split: option.splits)
  show ?thesis using ok bad late never iv lt by (intro conjI allI impI) auto
qed

theorem device_flow_outcomes_witness:
  "pollTime exampleDevice (\<lambda>n. 0) 0 1 = 5000 \<and>
   startDeviceAuth (StartOk exampleDevice) 0 (\<lambda>n. 0) pendingThenSuccess = Authorized exampleTokens \<and>
   startDeviceAuth (StartOk exampleDevice) 0 (\<lambda>n. 0) alwaysPending = TimedOut \<and>
   startDeviceAuth (StartOk exampleDevice) 0 (\<lambda>n. 0) (\<lambda>n. TokenError (Some (lit ''access_denied''))) = Failed"
proof -
  have t: "pollTime exampleDevice (\<lambda>n. 0) 0 1 = 5000"
    by (simp add: exampleDevice_def intervalMs_def)
  have l: "lifetimeMs exampleDevice = 600000"
    by (simp add: exampleDevice_def lifetimeMs_def)
  have r0: "retryable (pendingThenSuccess 0)"
    by (simp add: pendingThenSuccess_def retryable_def)
  have a: "startDeviceAuth (StartOk exampleDevice) 0 (\<lambda>n. 0) pendingThenSuccess = Authorized exampleTokens"
    using device_flow_outcomes [of pendingThenSuccess exampleDevice "\<lambda>n. 0" 0] t l r0
    by (auto simp: pendingThenSuccess_def dest!: spec [of _ 1])
  have b: "startDeviceAuth (StartOk exampleDevice) 0 (\<lambda>n. 0) alwaysPending = TimedOut"
    using device_flow_outcomes [of alwaysPending exampleDevice "\<lambda>n. 0" 0]
    by (simp add: alwaysPending_def retryable_def)
  have c: "startDeviceAuth (StartOk exampleDevice) 0 (\<lambda>n. 0) (\<lambda>n. TokenError (Some (lit ''access_denied''))) = Failed"
    using device_flow_outcomes [of "\<lambda>n. TokenError (Some (lit ''access_denied''))" exampleDevice "\<lambda>n. 0" 0] l
    by (auto simp: retryable_def lit_def dest!: spec [of _ 0])
  show ?thesis using t a b c by simp
qed

section \<open>The loopback listener\<close>

lemma lit_neq_200:
  "\<lparr> statusCode = 404, bodyText = b \<rparr> \<noteq> ok200" "\<lparr> statusCode = 400, bodyText = b \<rparr> \<noteq> ok200"
  by (simp_all add: ok200_def)








section \<open>Announcements\<close>

lemma isWhiteSpace_space: "isWhiteSpace 0x20"
  by (simp add: isWhiteSpace_def)

lemma collapse_Nil_iff: "collapseWhiteSpace s = [] \<longleftrightarrow> s = []"
  by (cases s) auto

lemma filter_collapse:
  "filter (\<lambda>c. \<not> isWhiteSpace c) (collapseWhiteSpace s) = filter (\<lambda>c. \<not> isWhiteSpace c) s"
proof (induction s rule: collapseWhiteSpace.induct)
  case 1
  then show ?case by simp
next
  case (2 c cs)
  have d: "filter (\<lambda>c. \<not> isWhiteSpace c) (dropWhile isWhiteSpace cs) = filter (\<lambda>c. \<not> isWhiteSpace c) cs"
    by (induction cs) auto
  show ?case using 2 d by (auto simp: isWhiteSpace_space)
qed

lemma collapse_only_spaces:
  "c \<in> set (collapseWhiteSpace s) \<Longrightarrow> isWhiteSpace c \<Longrightarrow> c = 0x20"
  by (induction s rule: collapseWhiteSpace.induct) (auto split: if_splits)

lemma hd_collapse:
  "s \<noteq> [] \<Longrightarrow> \<not> isWhiteSpace (hd s) \<Longrightarrow> collapseWhiteSpace s \<noteq> [] \<and> \<not> isWhiteSpace (hd (collapseWhiteSpace s))"
  by (cases s) auto

lemma noRuns_Cons:
  "noWhiteSpaceRuns (c # t) = ((t \<noteq> [] \<longrightarrow> \<not> (isWhiteSpace c \<and> isWhiteSpace (hd t))) \<and> noWhiteSpaceRuns t)"
  by (cases t) auto

lemma noRuns_collapse: "noWhiteSpaceRuns (collapseWhiteSpace s)"
proof (induction s rule: collapseWhiteSpace.induct)
  case 1
  then show ?case by simp
next
  case (2 c cs)
  show ?case
  proof (cases "isWhiteSpace c")
    case True
    let ?r = "dropWhile isWhiteSpace cs"
    have "?r \<noteq> [] \<Longrightarrow> \<not> isWhiteSpace (hd ?r)" by (simp add: hd_dropWhile)
    then have "collapseWhiteSpace ?r \<noteq> [] \<Longrightarrow> \<not> isWhiteSpace (hd (collapseWhiteSpace ?r))"
      using hd_collapse [of ?r] collapse_Nil_iff [of ?r] by blast
    with True 2 show ?thesis by (simp add: noRuns_Cons)
  next
    case False
    with 2 show ?thesis by (simp add: noRuns_Cons)
  qed
qed

lemma noRuns_append:
  "noWhiteSpaceRuns (xs @ ys) \<Longrightarrow> noWhiteSpaceRuns xs \<and> noWhiteSpaceRuns ys"
proof (induction xs rule: noWhiteSpaceRuns.induct)
  case 1
  then show ?case by simp
next
  case (2 c)
  then show ?case by (simp add: noRuns_Cons)
next
  case (3 c d cs)
  then show ?case by simp
qed

lemma trim_decompose: "\<exists>pre post. s = pre @ trim s @ post"
proof -
  let ?a = "dropWhile isWhiteSpace s"
  have 1: "s = takeWhile isWhiteSpace s @ ?a" by simp
  have "rev ?a = takeWhile isWhiteSpace (rev ?a) @ dropWhile isWhiteSpace (rev ?a)" by simp
  then have "?a = rev (dropWhile isWhiteSpace (rev ?a)) @ rev (takeWhile isWhiteSpace (rev ?a))"
    by (metis rev_append rev_rev_ident)
  then have "?a = trim s @ rev (takeWhile isWhiteSpace (rev ?a))" by (simp add: trim_def)
  with 1 show ?thesis by metis
qed

lemma noRuns_trim: "noWhiteSpaceRuns s \<Longrightarrow> noWhiteSpaceRuns (trim s)"
proof -
  assume a: "noWhiteSpaceRuns s"
  obtain pre post where "s = pre @ trim s @ post" using trim_decompose by blast
  then show ?thesis using a noRuns_append by metis
qed

lemma set_trim: "set (trim s) \<subseteq> set s"
proof -
  obtain pre post where "s = pre @ trim s @ post" using trim_decompose by blast
  then have "set s = set pre \<union> set (trim s) \<union> set post" by (metis set_append Un_assoc)
  then show ?thesis by blast
qed

lemma filter_trim:
  "filter (\<lambda>c. \<not> isWhiteSpace c) (trim s) = filter (\<lambda>c. \<not> isWhiteSpace c) s"
proof -
  have d: "filter (\<lambda>c. \<not> isWhiteSpace c) (dropWhile isWhiteSpace xs) = filter (\<lambda>c. \<not> isWhiteSpace c) xs" for xs
    by (induction xs) auto
  show ?thesis unfolding trim_def by (simp add: d rev_filter [symmetric])
qed

lemma trim_ends:
  assumes "trim s \<noteq> []"
  shows "\<not> isWhiteSpace (hd (trim s)) \<and> \<not> isWhiteSpace (last (trim s))"
proof -
  let ?a = "dropWhile isWhiteSpace s"
  let ?b = "dropWhile isWhiteSpace (rev ?a)"
  have b: "?b \<noteq> []" using assms by (simp add: trim_def)
  then have l: "\<not> isWhiteSpace (hd ?b)" by (simp add: hd_dropWhile)
  have "last (trim s) = hd ?b" using b by (simp add: trim_def last_rev)
  with l have 1: "\<not> isWhiteSpace (last (trim s))" by simp
  have a: "?a \<noteq> []"
  proof
    assume "?a = []"
    then have "?b = []" by (auto dest: set_dropWhileD)
    with b show False by blast
  qed
  then have ha: "\<not> isWhiteSpace (hd ?a)" by (simp add: hd_dropWhile)
  have "rev ?a = takeWhile isWhiteSpace (rev ?a) @ ?b" by simp
  then have "last (rev ?a) = last ?b" using b by (metis last_appendR)
  then have "last ?b = hd ?a" using a by (simp add: last_rev)
  moreover have "hd (trim s) = last ?b" using b by (simp add: trim_def hd_rev)
  ultimately have "\<not> isWhiteSpace (hd (trim s))" using ha by simp
  with 1 show ?thesis by simp
qed

lemma trim_Nil_iff: "trim s = [] \<longleftrightarrow> (\<forall>c\<in>set s. isWhiteSpace c)"
proof
  assume "trim s = []"
  then have "filter (\<lambda>c. \<not> isWhiteSpace c) s = []" using filter_trim [of s] by simp
  then show "\<forall>c\<in>set s. isWhiteSpace c" by (simp add: filter_empty_conv)
next
  assume "\<forall>c\<in>set s. isWhiteSpace c"
  then show "trim s = []" by (auto simp: trim_def dest: set_dropWhileD)
qed

lemma normalizeText_Nil_iff:
  "normalizeText text = [] \<longleftrightarrow> (\<forall>c\<in>set (orEmpty text). isWhiteSpace c)"
proof -
  have "normalizeText text = [] \<longleftrightarrow> filter (\<lambda>c. \<not> isWhiteSpace c) (collapseWhiteSpace (orEmpty text)) = []"
    unfolding normalizeText_def trim_Nil_iff by (simp add: filter_empty_conv)
  then show ?thesis by (simp add: filter_collapse filter_empty_conv)
qed


lemma normalizeText_shape:
  "noWhiteSpaceRuns (normalizeText text) \<and>
   (\<forall>u\<in>set (normalizeText text). isWhiteSpace u \<longrightarrow> u = 0x20) \<and>
   (normalizeText text \<noteq> [] \<longrightarrow>
      \<not> isWhiteSpace (hd (normalizeText text)) \<and> \<not> isWhiteSpace (last (normalizeText text))) \<and>
   filter (\<lambda>u. \<not> isWhiteSpace u) (normalizeText text) = filter (\<lambda>u. \<not> isWhiteSpace u) (orEmpty text)"
proof -
  have 1: "noWhiteSpaceRuns (normalizeText text)"
    unfolding normalizeText_def by (rule noRuns_trim) (rule noRuns_collapse)
  have 2: "\<forall>u\<in>set (normalizeText text). isWhiteSpace u \<longrightarrow> u = 0x20"
    unfolding normalizeText_def using set_trim collapse_only_spaces by blast
  have 3: "normalizeText text \<noteq> [] \<longrightarrow>
      \<not> isWhiteSpace (hd (normalizeText text)) \<and> \<not> isWhiteSpace (last (normalizeText text))"
    unfolding normalizeText_def using trim_ends by blast
  have 4: "filter (\<lambda>u. \<not> isWhiteSpace u) (normalizeText text) = filter (\<lambda>u. \<not> isWhiteSpace u) (orEmpty text)"
    unfolding normalizeText_def by (simp add: filter_trim filter_collapse)
  show ?thesis using 1 2 3 4 by blast
qed

lemma kstDayKey_TimeValue: "\<exists>k. kstDayKey E (TimeValue t) = Inr k"
  by (simp add: kstDayKey_def Let_def)

text \<open>
  Claim C6. The text of an announcement is normalised by collapsing every run of white
  space to one space and trimming: the result has no white space but single spaces
  between other code units, none at its ends, and the other code units of the text in
  their order. It is empty exactly when the text is white space only (or absent), and
  then the record is skipped. Otherwise, unless its time stamp is invalid, the record is
  pushed as one item whose title is the normalised text, cut to its first 117 code units
  followed by the ellipsis when it is longer than 120, whose link is the course's
  alternate link, whose dueAt is absent, whose topic is ANNOUNCEMENT and whose id is
  ann:courseId:nativeId.
\<close>

theorem announcement_item:
  "(normalizeText (a_text a) = [] \<longleftrightarrow> (\<forall>u\<in>set (orEmpty (a_text a)). isWhiteSpace u)) \<and>
   (normalizeText (a_text a) = [] \<longrightarrow> announcementStep E s c a = Continue) \<and>
   (normalizeText (a_text a) \<noteq> [] \<longrightarrow>
      (anchorDate E s (a_updateTime a) (a_creationTime a) = InvalidDate \<longrightarrow>
         announcementStep E s c a = Thrown RangeError) \<and>
      (\<forall>created. anchorDate E s (a_updateTime a) (a_creationTime a) = TimeValue created \<longrightarrow>
         (\<exists>dayKey. kstDayKey E (TimeValue created) = Inr dayKey \<and>
            announcementStep E s c a =
              Pushed (dayKey, c_name c,
                \<lparr> i_id = lit ''ann:'' @ c_id c @ lit '':'' @ a_id a,
                  i_title = Some (if 120 < length (normalizeText (a_text a))
                                  then take 117 (normalizeText (a_text a)) @ [0x2026]
                                  else normalizeText (a_text a)),
                  i_link = (if truthy (c_alternateLink c) then c_alternateLink c else None),
                  i_dueAt = None,
                  i_topic = lit ''ANNOUNCEMENT'',
                  i_createdAt = created \<rparr>)))) \<and>
   noWhiteSpaceRuns (normalizeText (a_text a)) \<and>
   (\<forall>u\<in>set (normalizeText (a_text a)). isWhiteSpace u \<longrightarrow> u = 0x20) \<and>
   (normalizeText (a_text a) \<noteq> [] \<longrightarrow>
      \<not> isWhiteSpace (hd (normalizeText (a_text a))) \<and> \<not> isWhiteSpace (last (normalizeText (a_text a)))) \<and>
   filter (\<lambda>u. \<not> isWhiteSpace u) (normalizeText (a_text a)) = filter (\<lambda>u. \<not> isWhiteSpace u) (orEmpty (a_text a))"
proof -
  let ?txt = "normalizeText (a_text a)"
  let ?when = "anchorDate E s (a_updateTime a) (a_creationTime a)"
  have 1: "?txt = [] \<longleftrightarrow> (\<forall>u\<in>set (orEmpty (a_text a)). isWhiteSpace u)"
    by (rule normalizeText_Nil_iff)
  have 2: "?txt = [] \<longrightarrow> announcementStep E s c a = Continue"
    by (simp add: announcementStep_def)
  have 3: "announcementStep E s c a = Thrown RangeError" if "?txt \<noteq> []" "?when = InvalidDate"
    using that by (simp add: announcementStep_def kstDayKey_def)
  have 4: "\<exists>dayKey. kstDayKey E (TimeValue created) = Inr dayKey \<and>
            announcementStep E s c a =
              Pushed (dayKey, c_name c,
                \<lparr> i_id = lit ''ann:'' @ c_id c @ lit '':'' @ a_id a,
                  i_title = Some (if 120 < length ?txt then take 117 ?txt @ [0x2026] else ?txt),
                  i_link = (if truthy (c_alternateLink c) then c_alternateLink c else None),
                  i_dueAt = None,
                  i_topic = lit ''ANNOUNCEMENT'',
                  i_createdAt = created \<rparr>)"
    if "?txt \<noteq> []" "?when = TimeValue created" for created
  proof -
    obtain k where k: "kstDayKey E (TimeValue created) = Inr k"
      using kstDayKey_TimeValue by blast
    show ?thesis
      using that k by (simp add: announcementStep_def truncateTitle_def ellipsis_def orNull_def)
  qed
  show ?thesis
    using 1 2 3 4 normalizeText_shape [of "a_text a"] by blast
qed

lemma example_texts:
  "normalizeText (a_text blankAnnouncement) = []"
  "normalizeText (a_text spacedAnnouncement) = lit ''Quiz on Monday''"
  "normalizeText (a_text longAnnouncement) = concat (replicate 7 (lit ''Homework due Friday''))"
  by code_simp+

lemma example_anchor:
  "anchorDate exampleEnv (AnnouncementWhen 0 0) (a_updateTime longAnnouncement) (a_creationTime longAnnouncement)
     = TimeValue 1704816000000"
  by code_simp

lemma example_dayKey: "kstDayKey exampleEnv (TimeValue 1704816000000) = Inr (lit ''2024-01-10'')"
  by code_simp

theorem announcement_item_witness:
  "announcementStep exampleEnv (AnnouncementWhen 0 0) exampleCourse blankAnnouncement = Continue \<and>
   length (concat (replicate 7 (lit ''Homework due Friday''))) = 133 \<and>
   announcementStep exampleEnv (AnnouncementWhen 0 0) exampleCourse longAnnouncement =
     Pushed (lit ''2024-01-10'', lit ''Math'',
       \<lparr> i_id = lit ''ann:101:8'',
         i_title = Some (take 117 (concat (replicate 7 (lit ''Homework due Friday''))) @ [0x2026]),
         i_link = Some (lit ''https://c/101''), i_dueAt = None, i_topic = lit ''ANNOUNCEMENT'',
         i_createdAt = 1704816000000 \<rparr>)"
proof -
  have l: "length (concat (replicate 7 (lit ''Homework due Friday''))) = 133"
    by code_simp
  have c: "c_id exampleCourse = lit ''101''" "c_name exampleCourse = lit ''Math''"
    "c_alternateLink exampleCourse = Some (lit ''https://c/101'')" "a_id longAnnouncement = lit ''8''"
    by (simp_all add: exampleCourse_def longAnnouncement_def)
  have t: "truthy (Some (lit ''https://c/101''))" by code_simp
  have i: "lit ''ann:'' @ lit ''101'' @ lit '':'' @ lit ''8'' = lit ''ann:101:8''" by (simp add: lit_def)
  have 1: "announcementStep exampleEnv (AnnouncementWhen 0 0) exampleCourse blankAnnouncement = Continue"
    using announcement_item [of blankAnnouncement exampleEnv "AnnouncementWhen 0 0" exampleCourse]
      example_texts(1) by simp
  have 2: "announcementStep exampleEnv (AnnouncementWhen 0 0) exampleCourse longAnnouncement =
     Pushed (lit ''2024-01-10'', lit ''Math'',
       \<lparr> i_id = lit ''ann:101:8'',
         i_title = Some (take 117 (concat (replicate 7 (lit ''Homework due Friday''))) @ [0x2026]),
         i_link = Some (lit ''https://c/101''), i_dueAt = None, i_topic = lit ''ANNOUNCEMENT'',
         i_createdAt = 1704816000000 \<rparr>)"
    using announcement_item [of longAnnouncement exampleEnv "AnnouncementWhen 0 0" exampleCourse]
      example_texts(3) example_anchor example_dayKey l c t i
    by (simp add: lit_def)
  show ?thesis using 1 2 l by simp
qed

section \<open>Ordering within a group\<close>

lemma consistent_alphabeticCompare: "consistentCompare alphabeticCompare"
  unfolding consistentCompare_def alphabeticCompare_def
  by (auto simp: not_less split: if_splits)

lemma main_example:
  "main exampleEnv exampleInput =
     \<lparr> written =
         [(lit ''./docs/days/2023-12-31.json'', SnapshotDoc day20231231),
          (lit ''./docs/days/2024-01-02.json'', SnapshotDoc day20240102),
          (lit ''./docs/days/2024-01-10.json'', SnapshotDoc day20240110),
          (lit ''./docs/days/index.json'', ManifestDoc exampleManifest)],
       exitError = None \<rparr>"
  by code_simp

lemma set_insertSorted: "set (insertSorted f x xs) = insert x (set xs)"
  by (induction xs) auto

lemma mset_insertSorted: "mset (insertSorted f x xs) = add_mset x (mset xs)"
  by (induction xs) auto

lemma mset_jsSort: "mset (jsSort f xs) = mset xs"
  unfolding jsSort_def by (induction xs) (auto simp: mset_insertSorted)

lemma sorted_wrt_insertSorted:
  assumes total: "\<And>a b. notAfter (f a b) \<or> notAfter (f b a)"
    and trans: "\<And>a b c. notAfter (f a b) \<Longrightarrow> notAfter (f b c) \<Longrightarrow> notAfter (f a c)"
    and "sorted_wrt (\<lambda>a b. notAfter (f a b)) xs"
  shows "sorted_wrt (\<lambda>a b. notAfter (f a b)) (insertSorted f x xs)"
  using assms(3)
proof (induction xs)
  case Nil
  then show ?case by simp
next
  case (Cons y ys)
  show ?case
  proof (cases "notAfter (f x y)")
    case True
    then have "\<forall>z\<in>set ys. notAfter (f x z)"
      using Cons.prems trans by auto
    with True Cons.prems show ?thesis by simp
  next
    case False
    then have "notAfter (f y x)" using total by blast
    with False Cons show ?thesis by (auto simp: set_insertSorted)
  qed
qed

lemma sorted_wrt_jsSort:
  assumes total: "\<And>a b. notAfter (f a b) \<or> notAfter (f b a)"
    and trans: "\<And>a b c. notAfter (f a b) \<Longrightarrow> notAfter (f b c) \<Longrightarrow> notAfter (f a c)"
  shows "sorted_wrt (\<lambda>a b. notAfter (f a b)) (jsSort f xs)"
  unfolding jsSort_def
  by (induction xs) (auto intro: sorted_wrt_insertSorted [OF total trans])

lemma consistentCompare_total:
  "consistentCompare cmp \<Longrightarrow> cmp x y \<le> 0 \<or> cmp y x \<le> 0"
  unfolding consistentCompare_def by (metis not_less order_less_imp_le)

lemma consistentCompare_trans:
  "consistentCompare cmp \<Longrightarrow> cmp x y \<le> 0 \<Longrightarrow> cmp y z \<le> 0 \<Longrightarrow> cmp x z \<le> 0"
  unfolding consistentCompare_def by blast




lemma writeDays_no_manifest: "(p, ManifestDoc m) \<notin> set (fst (writeDays E b k days))"
proof (induction days arbitrary: k)
  case Nil
  then show ?case by simp
next
  case (Cons d ds)
  obtain files err where r: "writeDays E b (Suc k) ds = (files, err)"
    by (cases "writeDays E b (Suc k) ds")
  have "(p, ManifestDoc m) \<notin> set files" using Cons [of "Suc k"] r by simp
  with r show ?case by (auto simp: Let_def split: option.splits)
qed







section \<open>Ordering in the flat build\<close>

lemma notAfter_compareFlatItems:
  "notAfter (compareFlatItems E a b) =
     (case f_dueAt a of
        None \<Rightarrow> f_dueAt b = None \<and> localeCompare E (orEmpty (f_title a)) (orEmpty (f_title b)) \<le> 0
      | Some x \<Rightarrow>
          (case f_dueAt b of
             None \<Rightarrow> True
           | Some y \<Rightarrow> x < y \<or> (x = y \<and> localeCompare E (orEmpty (f_title a)) (orEmpty (f_title b)) \<le> 0)))"
  by (auto simp: compareFlatItems_def notAfter_def dueNumber_def Let_def split: option.splits)

lemma jsSort_compareFlatItems_sorted:
  assumes "consistentCompare (localeCompare E)"
  shows "sorted_wrt (\<lambda>a b. notAfter (compareFlatItems E a b)) (jsSort (compareFlatItems E) xs)"
proof (rule sorted_wrt_jsSort)
  show "notAfter (compareFlatItems E a b) \<or> notAfter (compareFlatItems E b a)" for a b
    using consistentCompare_total [OF assms, of "orEmpty (f_title a)" "orEmpty (f_title b)"]
    unfolding notAfter_compareFlatItems by (auto split: option.splits)
  show "notAfter (compareFlatItems E a c)"
    if "notAfter (compareFlatItems E a b)" "notAfter (compareFlatItems E b c)" for a b c
    using that consistentCompare_trans [OF assms, of "orEmpty (f_title a)" "orEmpty (f_title b)" "orEmpty (f_title c)"]
    unfolding notAfter_compareFlatItems by (auto split: option.splits)
qed

lemma mainFlat_groups:
  assumes "dataWritten (mainFlat E inp) = Some out" and "g \<in> set (fd_groups out)"
  shows "\<exists>items. fg_items g = jsSort (compareFlatItems E) items"
proof -
  have "\<exists>c. g = flatGroupOf E inp c"
    using assms
    by (auto simp: mainFlat_def Let_def split: sum.splits fetched.splits if_splits)
  then show ?thesis by (auto simp: flatGroupOf_def Let_def)
qed

text \<open>
  Claim C10. In the flat build every course's items are sorted by due instant ascending:
  in every group written, an item with a due date is never after one without, of two
  items with due dates the earlier one's is not the later, and among items with the same
  due date (or both without) the titles are in the order of \<open>localeCompare\<close>. The example
  shows both builds on the same records: the day-bucketed one lists the newest anchor
  first, the flat one the earliest due date.
\<close>

theorem flat_group_items_ordered:
  assumes "consistentCompare (localeCompare E)"
    and "dataWritten (mainFlat E inp) = Some out"
    and "g \<in> set (fd_groups out)"
    and "i < j" and "j < length (fg_items g)"
  shows "(\<forall>y. f_dueAt (fg_items g ! j) = Some y \<longrightarrow>
            (\<exists>x. f_dueAt (fg_items g ! i) = Some x \<and> x \<le> y)) \<and>
         (f_dueAt (fg_items g ! i) = None \<longrightarrow> f_dueAt (fg_items g ! j) = None) \<and>
         (f_dueAt (fg_items g ! i) = f_dueAt (fg_items g ! j) \<longrightarrow>
            localeCompare E (orEmpty (f_title (fg_items g ! i))) (orEmpty (f_title (fg_items g ! j))) \<le> 0)"
proof -
  obtain items where "fg_items g = jsSort (compareFlatItems E) items"
    using mainFlat_groups [OF assms(2,3)] by blast
  then have "sorted_wrt (\<lambda>a b. notAfter (compareFlatItems E a b)) (fg_items g)"
    using jsSort_compareFlatItems_sorted [OF assms(1)] by simp
  then have "notAfter (compareFlatItems E (fg_items g ! i) (fg_items g ! j))"
    using assms(4,5) by (simp add: sorted_wrt_iff_nth_less)
  then show ?thesis unfolding notAfter_compareFlatItems by (auto split: option.splits)
qed

lemma mainFlat_example:
  "mainFlat exampleEnv exampleInput = \<lparr> dataWritten = Some exampleFlatDoc, flatExitError = None \<rparr>"
  by code_simp

theorem flat_group_items_ordered_witness:
  "consistentCompare (localeCompare exampleEnv) \<and>
   dataWritten (mainFlat exampleEnv exampleInput) = Some exampleFlatDoc \<and>
   \<lparr> fg_name = lit ''Math'', fg_items = mathFlatItems \<rparr> \<in> set (fd_groups exampleFlatDoc) \<and>
   length mathFlatItems = 4 \<and>
   f_dueAt (mathFlatItems ! 0) = Some 1706749140000 \<and>
   f_dueAt (mathFlatItems ! 1) = Some 1709305140000 \<and>
   f_dueAt (mathFlatItems ! 2) = None \<and>
   f_dueAt (mathFlatItems ! 3) = None \<and>
   localeCompare exampleEnv (lit ''a reading'') (lit ''Quiz on Monday'') \<le> 0 \<and>
   map i_id mathItems = [lit ''cw:101:3'', lit ''ann:101:9'', lit ''cw:101:2'', lit ''cw:101:1''] \<and>
   map f_id mathFlatItems = [lit ''cw:101:3'', lit ''cw:101:1'', lit ''cw:101:2'', lit ''ann:101:9'']"
proof -
  have c: "consistentCompare (localeCompare exampleEnv)"
    using consistent_alphabeticCompare by (simp add: exampleEnv_def)
  have w: "dataWritten (mainFlat exampleEnv exampleInput) = Some exampleFlatDoc"
    by (simp add: mainFlat_example)
  have g: "\<lparr> fg_name = lit ''Math'', fg_items = mathFlatItems \<rparr> \<in> set (fd_groups exampleFlatDoc)"
    by (simp add: exampleFlatDoc_def)
  have l: "length mathFlatItems = 4" by (simp add: mathFlatItems_def)
  have d: "f_dueAt (mathFlatItems ! 0) = Some 1706749140000" "f_dueAt (mathFlatItems ! 1) = Some 1709305140000"
    "f_dueAt (mathFlatItems ! 2) = None" "f_dueAt (mathFlatItems ! 3) = None"
    "f_title (mathFlatItems ! 2) = Some (lit ''a reading'')"
    "f_title (mathFlatItems ! 3) = Some (lit ''Quiz on Monday'')"
    by (simp_all add: mathFlatItems_def)
  have t: "localeCompare exampleEnv (lit ''a reading'') (lit ''Quiz on Monday'') \<le> 0"
    using flat_group_items_ordered [OF c w g, of 2 3] l d by (simp add: orEmpty_def)
  have m: "map i_id mathItems = [lit ''cw:101:3'', lit ''ann:101:9'', lit ''cw:101:2'', lit ''cw:101:1'']"
    "map f_id mathFlatItems = [lit ''cw:101:3'', lit ''cw:101:1'', lit ''cw:101:2'', lit ''ann:101:9'']"
    by (simp_all add: mathItems_def mathFlatItems_def)
  show ?thesis using c w g l d t m by simp
qed

section \<open>Runs\<close>

subsection \<open>Failing remote calls\<close>


lemma coursesPushes_cong:
  assumes "\<And>k c. c \<in> set cs \<Longrightarrow> coursePushes E inp k c = coursePushes E' inp' k c"
  shows "coursesPushes E inp i cs = coursesPushes E' inp' i cs"
  using assms by (induction cs arbitrary: i) auto


lemma main_alt:
  "main E inp =
     (case preflight inp of
        Some e \<Rightarrow> \<lparr> written = [], exitError = Some e \<rparr>
      | None \<Rightarrow> writeOut E (runBuckets E inp))"
  by (simp add: main_def preflight_def writeOut_def runBuckets_def runPushes_def runCourses_def Let_def
      split: sum.splits fetched.splits)






subsection \<open>Two runs over the same remote data\<close>

lemma kstDayKey_now: "kstDayKey (E \<lparr> now := f \<rparr>) d = kstDayKey E d"
  by (cases d) (simp_all add: kstDayKey_def)

lemma anchorDate_stamped:
  assumes "truthy u \<or> truthy c"
  shows "anchorDate (E \<lparr> now := f \<rparr>) s u c = anchorDate E s u c"
  using assms by (auto simp: anchorDate_def Let_def)

lemma courseWorkStep_stamped:
  assumes "truthy (w_updateTime w) \<or> truthy (w_creationTime w)"
  shows "courseWorkStep (E \<lparr> now := f \<rparr>) s c w = courseWorkStep E s c w"
  by (simp add: courseWorkStep_def Let_def anchorDate_stamped [OF assms] kstDayKey_now)

lemma announcementStep_stamped:
  assumes "normalizeText (a_text a) \<noteq> [] \<longrightarrow> truthy (a_updateTime a) \<or> truthy (a_creationTime a)"
  shows "announcementStep (E \<lparr> now := f \<rparr>) s c a = announcementStep E s c a"
proof (cases "normalizeText (a_text a) = []")
  case True
  then show ?thesis by (simp add: announcementStep_def)
next
  case False
  with assms have "truthy (a_updateTime a) \<or> truthy (a_creationTime a)" by simp
  then show ?thesis
    using False by (simp add: announcementStep_def Let_def anchorDate_stamped kstDayKey_now)
qed

lemma tryForOf_cong:
  assumes "\<And>j x. x \<in> set xs \<Longrightarrow> f j x = g j x"
  shows "tryForOf f i xs = tryForOf g i xs"
  using assms by (induction xs arbitrary: i) (auto split: step.splits)

lemma tryFetch_cong:
  assumes "\<And>data j x. res = Returns data \<Longrightarrow> x \<in> set (orEmptyList data) \<Longrightarrow> f j x = g j x"
  shows "tryFetch res f = tryFetch res g"
  using assms by (cases res) (auto simp: tryFetch_def intro: tryForOf_cong)

lemma coursePushes_stamped:
  assumes "allStamped inp" and "c \<in> set (runCourses inp)"
  shows "coursePushes (E \<lparr> now := f \<rparr>) inp k c = coursePushes E inp k c"
proof -
  have w: "truthy (w_updateTime w) \<or> truthy (w_creationTime w)"
    if "courseWorkList inp (c_id c) = Returns data" "w \<in> set (orEmptyList data)" for data w
    using assms that unfolding allStamped_def by blast
  have a: "normalizeText (a_text a) \<noteq> [] \<longrightarrow> truthy (a_updateTime a) \<or> truthy (a_creationTime a)"
    if "announcementsList inp (c_id c) = Returns data" "a \<in> set (orEmptyList data)" for data a
    using assms that unfolding allStamped_def by blast
  have 1: "tryFetch (courseWorkList inp (c_id c)) (\<lambda>j. courseWorkStep (E \<lparr> now := f \<rparr>) (CourseWorkWhen k j) c)
         = tryFetch (courseWorkList inp (c_id c)) (\<lambda>j. courseWorkStep E (CourseWorkWhen k j) c)"
    by (rule tryFetch_cong) (simp add: courseWorkStep_stamped w)
  have 2: "tryFetch (announcementsList inp (c_id c)) (\<lambda>j. announcementStep (E \<lparr> now := f \<rparr>) (AnnouncementWhen k j) c)
         = tryFetch (announcementsList inp (c_id c)) (\<lambda>j. announcementStep E (AnnouncementWhen k j) c)"
    by (rule tryFetch_cong) (simp add: announcementStep_stamped a)
  show ?thesis unfolding coursePushes_def 1 2 ..
qed

lemma runBuckets_stamped:
  assumes "allStamped inp"
  shows "runBuckets (E \<lparr> now := f \<rparr>) inp = runBuckets E inp"
proof -
  have "coursesPushes (E \<lparr> now := f \<rparr>) inp 0 (runCourses inp) = coursesPushes E inp 0 (runCourses inp)"
    by (rule coursesPushes_cong) (rule coursePushes_stamped [OF assms])
  then show ?thesis by (simp add: runBuckets_def runPushes_def)
qed

lemma groupsOf_now: "groupsOf (E \<lparr> now := f \<rparr>) byCourse = groupsOf E byCourse"
proof -
  have "compareItems (E \<lparr> now := f \<rparr>) = compareItems E"
    by (intro ext) (auto simp: compareItems_def Let_def)
  then show ?thesis by (simp add: groupsOf_def)
qed

lemma writeDays_now:
  "map (\<lambda>(p, d). (p, withoutGeneratedAt d)) (fst (writeDays (E \<lparr> now := f \<rparr>) b k days)) =
     map (\<lambda>(p, d). (p, withoutGeneratedAt d)) (fst (writeDays E b k days)) \<and>
   snd (writeDays (E \<lparr> now := f \<rparr>) b k days) = snd (writeDays E b k days)"
proof (induction days arbitrary: k)
  case Nil
  then show ?case by simp
next
  case (Cons d ds)
  obtain f1 e1 where 1: "writeDays (E \<lparr> now := f \<rparr>) b (Suc k) ds = (f1, e1)"
    by (cases "writeDays (E \<lparr> now := f \<rparr>) b (Suc k) ds")
  obtain f2 e2 where 2: "writeDays E b (Suc k) ds = (f2, e2)"
    by (cases "writeDays E b (Suc k) ds")
  have "map (\<lambda>(p, d). (p, withoutGeneratedAt d)) f1 = map (\<lambda>(p, d). (p, withoutGeneratedAt d)) f2 \<and> e1 = e2"
    using Cons [of "Suc k"] 1 2 by simp
  then show ?case
    using 1 2 by (simp add: Let_def groupsOf_now withoutGeneratedAt_def split: option.splits)
qed

lemma writeOut_now:
  "exceptGeneratedAt (writeOut (E \<lparr> now := f \<rparr>) b) = exceptGeneratedAt (writeOut E b)"
proof -
  let ?days = "sort (map fst b)"
  obtain f1 e1 where 1: "writeDays (E \<lparr> now := f \<rparr>) b 0 ?days = (f1, e1)"
    by (cases "writeDays (E \<lparr> now := f \<rparr>) b 0 ?days")
  obtain f2 e2 where 2: "writeDays E b 0 ?days = (f2, e2)"
    by (cases "writeDays E b 0 ?days")
  have e: "map (\<lambda>(p, d). (p, withoutGeneratedAt d)) f1 = map (\<lambda>(p, d). (p, withoutGeneratedAt d)) f2 \<and> e1 = e2"
    using writeDays_now [of f E b 0 ?days] 1 2 by simp
  have m: "withoutGeneratedAt (ManifestDoc (manifestOf (E \<lparr> now := f \<rparr>) ?days)) =
           withoutGeneratedAt (ManifestDoc (manifestOf E ?days))"
    by (simp add: withoutGeneratedAt_def manifestOf_def)
  show ?thesis
    using e m 1 2 by (simp add: writeOut_def exceptGeneratedAt_def Let_def split: option.splits)
qed

text \<open>
  Claim C9, for the records that carry a time stamp. When every coursework record, and
  every announcement with a non-empty normalised text, has an \<open>updateTime\<close> or a
  \<open>creationTime\<close>, two runs on the same host over the same remote data write the same
  files with the same contents and end with the same status, whatever the clock reads in
  either run, except for the \<open>generatedAt\<close> fields.
\<close>

theorem runs_agree_except_generatedAt:
  assumes "allStamped inp"
  shows "exceptGeneratedAt (main (E \<lparr> now := clock1 \<rparr>) inp) =
         exceptGeneratedAt (main (E \<lparr> now := clock2 \<rparr>) inp)"
proof -
  have "exceptGeneratedAt (main (E \<lparr> now := f \<rparr>) inp) = exceptGeneratedAt (main E inp)" for f
    unfolding main_alt runBuckets_stamped [OF assms]
    by (cases "preflight inp") (simp_all add: writeOut_now)
  then show ?thesis by simp
qed

lemma allStamped_example: "allStamped exampleInput"
proof -
  have c: "runCourses exampleInput = [exampleCourse, artCourse]"
    by (simp add: runCourses_def exampleInput_def orEmptyList_def)
  have i: "c_id exampleCourse = lit ''101''" "c_id artCourse \<noteq> lit ''101''"
    by (simp_all add: exampleCourse_def artCourse_def lit_def)
  have t: "truthy (Some (lit ''2024-01-09T16:00:00Z''))" "truthy (Some (lit ''2024-01-09T18:30:00Z''))"
    "truthy (Some (lit ''2024-01-01T23:00:00Z''))" "truthy (Some (lit ''2023-12-31T01:00:00Z''))"
    by (simp_all add: truthy_def lit_def)
  show ?thesis
    unfolding allStamped_def c
    using i t
    by (auto simp: exampleInput_def orEmptyList_def mathWork_def artAnnouncements_def
        blankAnnouncement_def spacedAnnouncement_def)
qed

theorem runs_agree_except_generatedAt_witness:
  "allStamped exampleInput \<and>
   exceptGeneratedAt (main laterEnv exampleInput) = exceptGeneratedAt (main exampleEnv exampleInput)"
proof -
  have e: "exampleEnv \<lparr> now := now exampleEnv \<rparr> = exampleEnv" by simp
  show ?thesis
    using runs_agree_except_generatedAt [OF allStamped_example,
        where E = exampleEnv and ?clock1.0 = "\<lambda>s. 1704153600000" and ?clock2.0 = "now exampleEnv"]
      allStamped_example
    unfolding e laterEnv_def by simp
qed

lemma unstamped_runs:
  "main exampleEnv unstampedInput = firstRun" "main laterEnv unstampedInput = secondRun"
  by code_simp+

text \<open>
  A record with neither time stamp is anchored at the clock's reading: run on two days,
  the same remote data gives files of different names and items with different
  \<open>createdAt\<close>.
\<close>

theorem unstamped_record_is_dated_by_the_clock:
  "main exampleEnv unstampedInput = firstRun \<and>
   main laterEnv unstampedInput = secondRun \<and>
   exceptGeneratedAt firstRun \<noteq> exceptGeneratedAt secondRun"
proof -
  have "map fst (written (exceptGeneratedAt firstRun)) \<noteq> map fst (written (exceptGeneratedAt secondRun))"
    by (simp add: exceptGeneratedAt_def firstRun_def secondRun_def lit_def)
  then have "exceptGeneratedAt firstRun \<noteq> exceptGeneratedAt secondRun" by metis
  then show ?thesis using unstamped_runs by simp
qed

section \<open>The manifest\<close>

lemma keys_pushItem:
  "map fst (pushItem k n it b) = (if k \<in> set (map fst b) then map fst b else map fst b @ [k])"
  by (simp add: pushItem_def Let_def update_keys image_iff)

lemma applyPushes_Nil: "applyPushes [] b = b"
  by (simp add: applyPushes_def)

lemma applyPushes_Cons: "applyPushes ((k, n, it) # ps) b = applyPushes ps (pushItem k n it b)"
  by (simp add: applyPushes_def)

lemma keyset_pushItem: "fst ` set (pushItem k n it b) = insert k (fst ` set b)"
proof -
  have "set (map fst (pushItem k n it b)) = insert k (set (map fst b))"
    unfolding keys_pushItem by auto
  then show ?thesis by simp
qed

lemma keys_applyPushes:
  "fst ` set (applyPushes ps b) = fst ` set b \<union> fst ` set ps"
proof (induction ps arbitrary: b)
  case Nil
  then show ?case by (simp add: applyPushes_Nil)
next
  case (Cons p ps)
  obtain k n it where p: "p = (k, n, it)" by (cases p)
  show ?case unfolding p applyPushes_Cons Cons.IH keyset_pushItem by auto
qed

lemma distinct_keys_pushItem:
  "distinct (map fst b) \<Longrightarrow> distinct (map fst (pushItem k n it b))"
  unfolding keys_pushItem by auto

lemma distinct_keys_applyPushes:
  "distinct (map fst b) \<Longrightarrow> distinct (map fst (applyPushes ps b))"
proof (induction ps arbitrary: b)
  case Nil
  then show ?case by (simp add: applyPushes_Nil)
next
  case (Cons p ps)
  obtain k n it where p: "p = (k, n, it)" by (cases p)
  show ?case unfolding p applyPushes_Cons
    by (rule Cons.IH) (rule distinct_keys_pushItem [OF Cons.prems])
qed

lemma distinct_keys_runBuckets: "distinct (map fst (runBuckets E inp))"
  unfolding runBuckets_def by (rule distinct_keys_applyPushes) simp

lemma keys_runBuckets: "set (map fst (runBuckets E inp)) = fst ` set (runPushes E inp)"
proof -
  have "fst ` set (runBuckets E inp) = fst ` set (runPushes E inp)"
    unfolding runBuckets_def keys_applyPushes by simp
  then show ?thesis by simp
qed

lemma runDays_eq: "runDays E inp = sorted_list_of_set (fst ` set (runPushes E inp))"
proof -
  have "sorted_list_of_set (set (map fst (runBuckets E inp))) = sort (remdups (map fst (runBuckets E inp)))"
    by (rule sorted_list_of_set_sort_remdups)
  also have "remdups (map fst (runBuckets E inp)) = map fst (runBuckets E inp)"
    using distinct_keys_runBuckets by (rule distinct_remdups_id)
  finally have "sorted_list_of_set (set (map fst (runBuckets E inp))) = sort (map fst (runBuckets E inp))" .
  then show ?thesis unfolding runDays_def keys_runBuckets by simp
qed

lemma tryForOf_pushed:
  "p \<in> set (tryForOf f i xs) \<Longrightarrow> \<exists>j x. x \<in> set xs \<and> f j x = Pushed p"
proof (induction xs arbitrary: i)
  case Nil
  then show ?case by simp
next
  case (Cons x xs)
  show ?case
  proof (cases "f i x")
    case Continue
    with Cons.prems have "p \<in> set (tryForOf f (Suc i) xs)" by simp
    from Cons.IH [OF this] show ?thesis by auto
  next
    case (Thrown e)
    with Cons.prems show ?thesis by simp
  next
    case (Pushed q)
    with Cons.prems consider "p = q" | "p \<in> set (tryForOf f (Suc i) xs)" by auto
    then show ?thesis
    proof cases
      case 1
      with Pushed show ?thesis by auto
    next
      case 2
      from Cons.IH [OF this] show ?thesis by auto
    qed
  qed
qed

lemma tryFetch_pushed:
  assumes "p \<in> set (tryFetch res f)"
  shows "\<exists>data j x. res = Returns data \<and> x \<in> set (orEmptyList data) \<and> f j x = Pushed p"
proof (cases res)
  case Fails
  with assms show ?thesis by (simp add: tryFetch_def)
next
  case (Returns data)
  with assms have "p \<in> set (tryForOf f 0 (orEmptyList data))" by (simp add: tryFetch_def)
  from tryForOf_pushed [OF this] Returns show ?thesis by blast
qed

lemma kstDayKey_nonempty: "kstDayKey E d = Inr k \<Longrightarrow> k \<noteq> []"
  by (cases d) (auto simp: kstDayKey_def Let_def lit_def)

lemma courseWorkStep_dayKey:
  "courseWorkStep E s c w = Pushed (k, n, it) \<Longrightarrow> \<exists>d. kstDayKey E d = Inr k"
  by (auto simp: courseWorkStep_def Let_def split: sum.splits jsdate.splits option.splits)

lemma announcementStep_dayKey:
  "announcementStep E s c a = Pushed (k, n, it) \<Longrightarrow> \<exists>d. kstDayKey E d = Inr k"
  by (auto simp: announcementStep_def Let_def split: sum.splits jsdate.splits if_splits)

lemma coursePushes_dayKey:
  assumes "(k, n, it) \<in> set (coursePushes E inp i c)"
  shows "\<exists>d. kstDayKey E d = Inr k"
proof -
  from assms consider
      "(k, n, it) \<in> set (tryFetch (courseWorkList inp (c_id c)) (\<lambda>j. courseWorkStep E (CourseWorkWhen i j) c))"
    | "(k, n, it) \<in> set (tryFetch (announcementsList inp (c_id c)) (\<lambda>j. announcementStep E (AnnouncementWhen i j) c))"
    unfolding coursePushes_def by auto
  then show ?thesis
  proof cases
    case 1
    from tryFetch_pushed [OF this] show ?thesis using courseWorkStep_dayKey by blast
  next
    case 2
    from tryFetch_pushed [OF this] show ?thesis using announcementStep_dayKey by blast
  qed
qed

lemma coursesPushes_dayKey:
  "(k, n, it) \<in> set (coursesPushes E inp i cs) \<Longrightarrow> \<exists>d. kstDayKey E d = Inr k"
  by (induction cs arbitrary: i) (auto dest: coursePushes_dayKey)

lemma runPushes_dayKey_nonempty:
  "(k, n, it) \<in> set (runPushes E inp) \<Longrightarrow> k \<noteq> []"
  unfolding runPushes_def using coursesPushes_dayKey kstDayKey_nonempty by blast

lemma last_sorted_Max:
  fixes xs :: "'a::linorder list"
  assumes "sorted xs" "xs \<noteq> []"
  shows "last xs = Max (set xs)"
proof -
  have le: "y \<le> last xs" if "y \<in> set xs" for y
  proof -
    from that obtain i where i: "i < length xs" "xs ! i = y" by (auto simp: in_set_conv_nth)
    have "xs ! i \<le> xs ! (length xs - 1)"
      by (rule sorted_nth_mono [OF assms(1)]) (use i in auto)
    then show ?thesis using i assms(2) by (simp add: last_conv_nth)
  qed
  have "last xs \<in> set xs" using assms(2) by simp
  then have "Max (set xs) = last xs" using le by (intro Max_eqI) auto
  then show ?thesis by simp
qed

lemma main_manifest:
  assumes "(p, ManifestDoc m) \<in> set (written (main E inp))"
  shows "p = indexPath \<and> m = manifestOf E (runDays E inp) \<and> exitError (main E inp) = None"
proof (cases "preflight inp")
  case (Some e)
  with assms show ?thesis by (simp add: main_alt)
next
  case None
  obtain files err where w: "writeDays E (runBuckets E inp) 0 (runDays E inp) = (files, err)"
    by (cases "writeDays E (runBuckets E inp) 0 (runDays E inp)")
  have nf: "(p, ManifestDoc m) \<notin> set files"
    using writeDays_no_manifest [of p m E "runBuckets E inp" 0 "runDays E inp"] w by simp
  have w': "writeDays E (runBuckets E inp) 0 (sort (map fst (runBuckets E inp))) = (files, err)"
    using w by (simp add: runDays_def)
  show ?thesis
  proof (cases "mkdirFails E")
    case True
    with assms None show ?thesis by (simp add: main_alt writeOut_def Let_def)
  next
    case False
    show ?thesis
    proof (cases err)
      case (Some e)
      with assms None False w' nf show ?thesis by (simp add: main_alt writeOut_def Let_def)
    next
      case none: None
      show ?thesis
      proof (cases "writeFails E indexPath")
        case True
        with assms None False w' nf none show ?thesis by (simp add: main_alt writeOut_def Let_def)
      next
        case wf: False
        have "written (main E inp) = files @ [(indexPath, ManifestDoc (manifestOf E (runDays E inp)))]"
          "exitError (main E inp) = None"
          using None False w' none wf by (simp_all add: main_alt writeOut_def Let_def runDays_def)
        with assms nf show ?thesis by auto
      qed
    qed
  qed
qed

text \<open>
  Claim C8. The manifest a run writes lists the day keys of the run's \<open>pushItem\<close> calls:
  each key once, in ascending order of the strings, each with its label, the key with
  its hyphens turned into dots. \<open>latestDay\<close> is the greatest of the keys, and absent when
  nothing was pushed.
\<close>

theorem manifest_lists_days:
  assumes "(p, ManifestDoc m) \<in> set (written (main E inp))"
  shows "map e_day (m_days m) = sorted_list_of_set (fst ` set (runPushes E inp)) \<and>
         map e_label (m_days m) = map kstLabel (map e_day (m_days m)) \<and>
         m_latestDay m =
           (if runPushes E inp = [] then None else Some (Max (fst ` set (runPushes E inp))))"
proof -
  let ?keys = "fst ` set (runPushes E inp)"
  have m: "m = manifestOf E (runDays E inp)" using main_manifest [OF assms] by simp
  have d: "runDays E inp = sorted_list_of_set ?keys" by (rule runDays_eq)
  have 1: "map e_day (m_days m) = sorted_list_of_set ?keys"
    unfolding m d [symmetric] by (simp add: manifestOf_def comp_def)
  have 2: "map e_label (m_days m) = map kstLabel (map e_day (m_days m))"
    unfolding m by (simp add: manifestOf_def comp_def)
  have 3: "m_latestDay m = (if runPushes E inp = [] then None else Some (Max ?keys))"
  proof (cases "runPushes E inp = []")
    case True
    then have "runDays E inp = []" unfolding d by simp
    with True show ?thesis unfolding m by (simp add: manifestOf_def)
  next
    case False
    then have ne: "?keys \<noteq> {}" by simp
    have f: "finite ?keys" by simp
    have s: "set (runDays E inp) = ?keys" unfolding d using f by simp
    have dn: "runDays E inp \<noteq> []" using s ne by auto
    have "sorted (runDays E inp)" unfolding d by simp
    then have l: "last (runDays E inp) = Max ?keys"
      using last_sorted_Max [of "runDays E inp"] dn s by simp
    have "Max ?keys \<in> ?keys" using f ne by (rule Max_in)
    then obtain q where q: "q \<in> set (runPushes E inp)" "fst q = Max ?keys" by auto
    obtain k n it where "q = (k, n, it)" by (cases q)
    with q have "Max ?keys \<noteq> []" using runPushes_dayKey_nonempty [of k n it E inp] by auto
    then show ?thesis
      unfolding m using False dn l by (simp add: manifestOf_def orNull_def truthy_def)
  qed
  show ?thesis using 1 2 3 by simp
qed

theorem manifest_lists_days_witness:
  "(lit ''./docs/days/index.json'', ManifestDoc exampleManifest) \<in> set (written (main exampleEnv exampleInput)) \<and>
   sorted_list_of_set (fst ` set (runPushes exampleEnv exampleInput)) =
     [lit ''2023-12-31'', lit ''2024-01-02'', lit ''2024-01-10''] \<and>
   map e_label (m_days exampleManifest) = [lit ''2023.12.31'', lit ''2024.01.02'', lit ''2024.01.10''] \<and>
   Max (fst ` set (runPushes exampleEnv exampleInput)) = lit ''2024-01-10'' \<and>
   m_latestDay exampleManifest = Some (lit ''2024-01-10'')"
proof -
  have w: "(lit ''./docs/days/index.json'', ManifestDoc exampleManifest) \<in> set (written (main exampleEnv exampleInput))"
    by (simp add: main_example)
  have d: "map e_day (m_days exampleManifest) = [lit ''2023-12-31'', lit ''2024-01-02'', lit ''2024-01-10'']"
    "map e_label (m_days exampleManifest) = [lit ''2023.12.31'', lit ''2024.01.02'', lit ''2024.01.10'']"
    "m_latestDay exampleManifest = Some (lit ''2024-01-10'')"
    by (simp_all add: exampleManifest_def)
  have n: "runPushes exampleEnv exampleInput \<noteq> []"
  proof
    assume "runPushes exampleEnv exampleInput = []"
    then have "m_latestDay exampleManifest = None"
      using manifest_lists_days [OF w] by simp
    then show False using d(3) by simp
  qed
  have 1: "sorted_list_of_set (fst ` set (runPushes exampleEnv exampleInput)) =
     [lit ''2023-12-31'', lit ''2024-01-02'', lit ''2024-01-10'']"
    using manifest_lists_days [OF w] d(1) by simp
  have 2: "Max (fst ` set (runPushes exampleEnv exampleInput)) = lit ''2024-01-10''"
    using manifest_lists_days [OF w] d(3) n by simp
  show ?thesis using w 1 2 d by simp
qed


end

